theory Spec2Isabelle
  imports Main
begin

section \<open>Python strings\<close>

text \<open>
  A Python \<open>str\<close> is a sequence of code points. It is modelled as a \<open>string\<close> in which
  every \<open>char\<close> stands for one code point, so the model covers the code points below
  256 (ASCII and Latin-1); \<open>length\<close> counts code points, as \<open>len\<close> does. The copyright
  sign U+00A9 is \<open>CHR 0xA9\<close> and the capital A with circumflex U+00C2 is \<open>CHR 0xC2\<close>.
\<close>

definition code_point :: "char \<Rightarrow> nat" where
  "code_point c = of_char c"

text \<open>\<open>s.startswith(p)\<close>.\<close>

definition startswith :: "string \<Rightarrow> string \<Rightarrow> bool" where
  "startswith p s = (take (length p) s = p)"

text \<open>\<open>sub in s\<close>: \<open>sub\<close> occurs in \<open>s\<close> as a contiguous substring.\<close>

fun contains :: "string \<Rightarrow> string \<Rightarrow> bool" where
  "contains sub [] = (sub = [])"
| "contains sub (c # cs) = (startswith sub (c # cs) \<or> contains sub cs)"

text \<open>
  \<open>s.replace(old, new)\<close> for a non-empty \<open>old\<close>: every occurrence, left to right, without
  overlaps. The counter is the number of characters of the occurrence just replaced that are
  still to be skipped.
\<close>

fun replace_from :: "string \<Rightarrow> string \<Rightarrow> nat \<Rightarrow> string \<Rightarrow> string" where
  "replace_from old new k [] = []"
| "replace_from old new (Suc k) (c # cs) = replace_from old new k cs"
| "replace_from old new 0 (c # cs) =
     (if startswith old (c # cs) then new @ replace_from old new (length old - 1) cs
      else c # replace_from old new 0 cs)"

definition replace :: "string \<Rightarrow> string \<Rightarrow> string \<Rightarrow> string" where
  "replace old new s = replace_from old new 0 s"

text \<open>
  \<open>s.lower()\<close> on the code points below 256: the ASCII capitals and the Latin-1 capitals
  U+00C0 to U+00DE (the multiplication sign U+00D7 apart) move up by 32, every other code
  point is unchanged.
\<close>

definition upper_chars :: "char list" where
  "upper_chars = ''ABCDEFGHIJKLMNOPQRSTUVWXYZ'' @
     [CHR 0xC0, CHR 0xC1, CHR 0xC2, CHR 0xC3, CHR 0xC4, CHR 0xC5, CHR 0xC6, CHR 0xC7,
      CHR 0xC8, CHR 0xC9, CHR 0xCA, CHR 0xCB, CHR 0xCC, CHR 0xCD, CHR 0xCE, CHR 0xCF,
      CHR 0xD0, CHR 0xD1, CHR 0xD2, CHR 0xD3, CHR 0xD4, CHR 0xD5, CHR 0xD6,
      CHR 0xD8, CHR 0xD9, CHR 0xDA, CHR 0xDB, CHR 0xDC, CHR 0xDD, CHR 0xDE]"

definition lower_chars :: "char list" where
  "lower_chars = ''abcdefghijklmnopqrstuvwxyz'' @
     [CHR 0xE0, CHR 0xE1, CHR 0xE2, CHR 0xE3, CHR 0xE4, CHR 0xE5, CHR 0xE6, CHR 0xE7,
      CHR 0xE8, CHR 0xE9, CHR 0xEA, CHR 0xEB, CHR 0xEC, CHR 0xED, CHR 0xEE, CHR 0xEF,
      CHR 0xF0, CHR 0xF1, CHR 0xF2, CHR 0xF3, CHR 0xF4, CHR 0xF5, CHR 0xF6,
      CHR 0xF8, CHR 0xF9, CHR 0xFA, CHR 0xFB, CHR 0xFC, CHR 0xFD, CHR 0xFE]"

definition lower_char :: "char \<Rightarrow> char" where
  "lower_char c = (case map_of (zip upper_chars lower_chars) c of Some d \<Rightarrow> d | None \<Rightarrow> c)"

definition lower :: "string \<Rightarrow> string" where
  "lower s = map lower_char s"

text \<open>
  \<open>s.strip()\<close> removes leading and trailing whitespace; below 256 the whitespace code
  points are 9 to 13, 28 to 32, U+0085 and U+00A0.
\<close>

definition isspace :: "char \<Rightarrow> bool" where
  "isspace c =
     (let n = code_point c
      in (9 \<le> n \<and> n \<le> 13) \<or> (28 \<le> n \<and> n \<le> 32) \<or> n = 133 \<or> n = 160)"

definition strip :: "string \<Rightarrow> string" where
  "strip s = rev (dropWhile isspace (rev (dropWhile isspace s)))"

text \<open>\<open>str(n)\<close> and the \<open>{n}\<close> of an f-string, for a non-negative integer: its decimal digits.\<close>

fun str_nat :: "nat \<Rightarrow> string" where
  "str_nat n = (if n < 10 then [''0123456789'' ! n]
                else str_nat (n div 10) @ [''0123456789'' ! (n mod 10)])"

declare str_nat.simps [simp del]

section \<open>Regular expressions\<close>

text \<open>
  The two patterns of the analyzers are sequences of four kinds of items: one character of
  a class, the word boundary \<open>\b\<close>, an optional character of a class (\<open>[..]?\<close>) and a
  greedy repetition of a class with a lower bound (\<open>[..]+\<close>, \<open>[..]{2,}\<close>). \<open>rx_match\<close> is the
  backtracking matcher of \<open>re\<close> anchored at position \<open>i\<close>: it answers the end of the first
  match in the order the engine tries them (the optional character first taken, the
  repetition first as long as possible).
\<close>

datatype rx = Cls "char \<Rightarrow> bool" | Bnd | Opt "char \<Rightarrow> bool" | AtLeast nat "char \<Rightarrow> bool"

type_synonym pattern = "rx list"

text \<open>\<open>\d\<close> and \<open>\w\<close> of a \<open>str\<close> pattern, on the code points below 256.\<close>

definition is_digit :: "char \<Rightarrow> bool" where
  "is_digit c = (c \<in> set ''0123456789'')"

definition is_ascii_alpha :: "char \<Rightarrow> bool" where
  "is_ascii_alpha c =
     (c \<in> set ''ABCDEFGHIJKLMNOPQRSTUVWXYZ'' \<or> c \<in> set ''abcdefghijklmnopqrstuvwxyz'')"

definition is_word :: "char \<Rightarrow> bool" where
  "is_word c =
     (let n = code_point c
      in is_digit c \<or> is_ascii_alpha c \<or> c = CHR ''_'' \<or>
         n \<in> {170, 178, 179, 181, 185, 186, 188, 189, 190} \<or>
         (192 \<le> n \<and> n \<le> 255 \<and> n \<noteq> 215 \<and> n \<noteq> 247))"

definition word_at :: "string \<Rightarrow> nat \<Rightarrow> bool" where
  "word_at s i = (i < length s \<and> is_word (s ! i))"

definition word_boundary :: "string \<Rightarrow> nat \<Rightarrow> bool" where
  "word_boundary s i = ((0 < i \<and> word_at s (i - 1)) \<noteq> word_at s i)"

fun first_some :: "'a option list \<Rightarrow> 'a option" where
  "first_some [] = None"
| "first_some (None # xs) = first_some xs"
| "first_some (Some x # xs) = Some x"

fun rx_match :: "pattern \<Rightarrow> string \<Rightarrow> nat \<Rightarrow> nat option" where
  "rx_match [] s i = Some i"
| "rx_match (Cls P # r) s i =
     (if i < length s \<and> P (s ! i) then rx_match r s (Suc i) else None)"
| "rx_match (Bnd # r) s i = (if word_boundary s i then rx_match r s i else None)"
| "rx_match (Opt P # r) s i =
     (case (if i < length s \<and> P (s ! i) then rx_match r s (Suc i) else None) of
        Some e \<Rightarrow> Some e
      | None \<Rightarrow> rx_match r s i)"
| "rx_match (AtLeast n P # r) s i =
     first_some (map (\<lambda>k. rx_match r s (i + k))
                     (rev [n..<Suc (length (takeWhile P (drop i s)))]))"

text \<open>The text between two positions, \<open>s[i:e]\<close>.\<close>

definition substr :: "string \<Rightarrow> nat \<Rightarrow> nat \<Rightarrow> string" where
  "substr s i e = take (e - i) (drop i s)"

text \<open>
  \<open>pattern.search(s)\<close>: the match at the first position that has one, as its text
  (\<open>group(0)\<close>); \<open>None\<close> when no position matches.
\<close>

definition search :: "pattern \<Rightarrow> string \<Rightarrow> string option" where
  "search p s =
     first_some (map (\<lambda>i. case rx_match p s i of None \<Rightarrow> None | Some e \<Rightarrow> Some (substr s i e))
                     [0..<Suc (length s)])"

text \<open>
  \<open>pattern.findall(s)\<close>: the texts of the successive matches, each search resuming where the
  match before ended. Both patterns below match non-empty text only, so a match always
  ends after its start.
\<close>

fun findall_scan :: "pattern \<Rightarrow> string \<Rightarrow> nat list \<Rightarrow> nat \<Rightarrow> string list" where
  "findall_scan p s [] resume = []"
| "findall_scan p s (i # rest) resume =
     (if i < resume then findall_scan p s rest resume
      else case rx_match p s i of
             None \<Rightarrow> findall_scan p s rest resume
           | Some e \<Rightarrow> substr s i e # findall_scan p s rest (max e (Suc i)))"

definition findall :: "pattern \<Rightarrow> string \<Rightarrow> string list" where
  "findall p s = findall_scan p s [0..<Suc (length s)] 0"

text \<open>
  \<open>\b\d{3}[-.]?\d{3}[-.]?\d{4}\b\<close>. The extraction pattern of the full analyzer wraps
  everything between the two boundaries in a group; the boundaries are zero-width, so its
  \<open>group(1)\<close> is the whole match.
\<close>

definition is_sep :: "char \<Rightarrow> bool" where
  "is_sep c = (c = CHR ''-'' \<or> c = CHR ''.'')"

definition phone_pattern :: pattern where
  "phone_pattern =
     [Bnd, Cls is_digit, Cls is_digit, Cls is_digit, Opt is_sep,
      Cls is_digit, Cls is_digit, Cls is_digit, Opt is_sep,
      Cls is_digit, Cls is_digit, Cls is_digit, Cls is_digit, Bnd]"

text \<open>\<open>\b[A-Za-z0-9._%+-]+@[A-Za-z0-9.-]+\.[A-Z|a-z]{2,}\b\<close>.\<close>

definition is_local :: "char \<Rightarrow> bool" where
  "is_local c = (is_ascii_alpha c \<or> is_digit c \<or> c \<in> set ''._%+-'')"

definition is_domain :: "char \<Rightarrow> bool" where
  "is_domain c = (is_ascii_alpha c \<or> is_digit c \<or> c \<in> set ''.-'')"

definition is_tld :: "char \<Rightarrow> bool" where
  "is_tld c = (is_ascii_alpha c \<or> c = CHR ''|'')"

definition email_pattern :: pattern where
  "email_pattern =
     [Bnd, AtLeast 1 is_local, Cls (\<lambda>c. c = CHR ''@''), AtLeast 1 is_domain,
      Cls (\<lambda>c. c = CHR ''.''), AtLeast 2 is_tld, Bnd]"

section \<open>Result records and the outside world\<close>

datatype status = Analyzed | Error

text \<open>
  The result dictionary of one analysis. The error dictionaries of the analyzers leave some
  keys out; a key that is absent is \<open>None\<close>.
\<close>

record result =
  url :: string
  quality_score :: int
  issues :: "string list"
  status :: status
  needs_redesign :: "bool option"
  is_hot_lead :: "bool option"
  business_name :: "string option"
  phone :: "string option"
  email :: "string option"
  analysis_date :: "string option"

text \<open>What an analyzer does to the outside world, in the order it does it.\<close>

datatype event =
    SessionGet string bool
  | SessionHead string
  | UrlOpen string
  | Sleep nat

text \<open>
  \<open>session.get\<close> answers a response (status code and body), raises
  \<open>requests.exceptions.SSLError\<close> or raises another exception; the string is \<open>str(e)\<close>.
\<close>

datatype get_outcome = Response nat string | SSLError string | RequestError string

datatype head_outcome = HeadStatus nat | HeadError

text \<open>
  \<open>urllib.request.urlopen\<close> answers the decoded body, or raises \<open>HTTPError\<close> (with the
  status code), \<open>URLError\<close> (with its reason) or another exception.
\<close>

datatype open_outcome = Opened string | HTTPError nat | URLError string | OpenError string

text \<open>
  The document \<open>BeautifulSoup\<close> builds, as far as the analyzer looks at it: its elements in
  document order, each with its tag name, attributes and text, and the text of the whole
  document.
\<close>

record element =
  tag :: string
  attrs :: "string \<rightharpoonup> string"
  elem_text :: string

record soup =
  elements :: "element list"
  get_text :: string

text \<open>
  The calls \<open>html.parser.HTMLParser.feed\<close> makes to the handlers of a parser; an attribute
  written without a value has the value \<open>None\<close>.
\<close>

datatype html_event =
    StartTag string "(string \<times> string option) list"
  | EndTag string
  | Data string

text \<open>
  The libraries and the network are parameters of the model. A request is answered from the
  events so far, so the same URL may be answered differently the second time.
  \<open>make_soup\<close> is \<open>BeautifulSoup(content, 'html.parser')\<close> and \<open>html_events\<close> is the
  tokenizer behind \<open>feed\<close> and \<open>close\<close>; each may raise, with the message given
  (\<open>html_events\<close> after the handler calls it made before). \<open>urljoin\<close> answers \<open>None\<close> when
  it raises.
\<close>

record env =
  session_get :: "event list \<Rightarrow> string \<Rightarrow> bool \<Rightarrow> get_outcome"
  session_head :: "event list \<Rightarrow> string \<Rightarrow> head_outcome"
  urljoin :: "string \<Rightarrow> string \<Rightarrow> string option"
  make_soup :: "string \<Rightarrow> string + soup"
  urlopen :: "event list \<Rightarrow> string \<Rightarrow> open_outcome"
  html_events :: "string \<Rightarrow> html_event list \<times> string option"
  now_year :: "event list \<Rightarrow> nat"
  now_stamp :: "event list \<Rightarrow> string"

section \<open>The checks both analyzers share\<close>

text \<open>The running score and issue list; \<open>issues.append(msg); score -= d\<close>.\<close>

type_synonym tally = "int \<times> string list"

definition deduct :: "int \<Rightarrow> string \<Rightarrow> tally \<Rightarrow> tally" where
  "deduct d msg t = (fst t - d, snd t @ [msg])"

definition ensure_protocol :: "string \<Rightarrow> string" where
  "ensure_protocol u =
     (if \<not> (startswith ''http://'' u \<or> startswith ''https://'' u) then ''https://'' @ u else u)"

definition check_https :: "string \<Rightarrow> tally \<Rightarrow> tally" where
  "check_https u t = (if \<not> startswith ''https://'' u then deduct 20 ''No HTTPS'' t else t)"

text \<open>
  The loop over \<open>range(2015, current_year - 1)\<close> with its \<open>break\<close>; \<open>sign\<close> is the literal
  in front of the year in the first f-string.
\<close>

definition copyright_hit :: "string \<Rightarrow> string \<Rightarrow> nat \<Rightarrow> bool" where
  "copyright_hit sign txt year =
     (contains (sign @ '' '' @ str_nat year) txt \<or> contains (''copyright '' @ str_nat year) txt)"

definition check_copyright :: "string \<Rightarrow> nat \<Rightarrow> string \<Rightarrow> tally \<Rightarrow> tally" where
  "check_copyright sign current_year txt t =
     (case find (copyright_hit sign txt) [2015..<current_year - 1] of
        None \<Rightarrow> t
      | Some year \<Rightarrow> deduct 10 (''Outdated copyright: '' @ str_nat year) t)"

definition check_lorem :: "string \<Rightarrow> tally \<Rightarrow> tally" where
  "check_lorem txt t =
     (if contains ''lorem ipsum'' txt then deduct 25 ''Contains Lorem ipsum'' t else t)"

definition check_construction :: "string list \<Rightarrow> string \<Rightarrow> tally \<Rightarrow> tally" where
  "check_construction construction_phrases txt t =
     (case find (\<lambda>phrase. contains phrase txt) construction_phrases of
        None \<Rightarrow> t
      | Some phrase \<Rightarrow> deduct 30 ''Under construction'' t)"

section \<open>The full analyzer (business_analyzer.py)\<close>

definition error_result :: "string \<Rightarrow> string \<Rightarrow> result" where
  "error_result u msg =
     \<lparr>url = u, quality_score = 0, issues = [msg], status = Error,
      needs_redesign = None, is_hot_lead = None, business_name = None,
      phone = None, email = None, analysis_date = None\<rparr>"

definition check_status :: "nat \<Rightarrow> tally \<Rightarrow> tally" where
  "check_status status_code t =
     (if status_code \<noteq> 200 then deduct 30 (''HTTP '' @ str_nat status_code) t else t)"

text \<open>\<open>soup.find(name)\<close>: the first element with that tag, if any.\<close>

definition soup_find :: "soup \<Rightarrow> string \<Rightarrow> element option" where
  "soup_find sp name = find (\<lambda>e. tag e = name) (elements sp)"

definition check_viewport :: "soup \<Rightarrow> tally \<Rightarrow> tally" where
  "check_viewport sp t =
     (case find (\<lambda>e. tag e = ''meta'' \<and> attrs e ''name'' = Some ''viewport'') (elements sp) of
        None \<Rightarrow> deduct 15 ''No mobile viewport'' t
      | Some viewport \<Rightarrow> t)"

definition construction_phrases_full :: "string list" where
  "construction_phrases_full =
     [''under construction'', ''coming soon'', ''website under development'',
      ''site under construction'', ''page under construction'']"

definition check_embedded :: "soup \<Rightarrow> tally \<Rightarrow> tally" where
  "check_embedded sp t =
     (if soup_find sp ''object'' \<noteq> None \<or> soup_find sp ''embed'' \<noteq> None
      then deduct 25 ''Uses Flash/embedded objects'' t else t)"

definition check_charset :: "soup \<Rightarrow> tally \<Rightarrow> tally" where
  "check_charset sp t =
     (case find (\<lambda>e. tag e = ''meta'' \<and> attrs e ''charset'' \<noteq> None) (elements sp) of
        None \<Rightarrow> deduct 5 ''No charset declaration'' t
      | Some m \<Rightarrow> t)"

definition check_title :: "soup \<Rightarrow> tally \<Rightarrow> tally" where
  "check_title sp t =
     (case soup_find sp ''title'' of
        None \<Rightarrow> deduct 15 ''Poor/missing page title'' t
      | Some title \<Rightarrow>
          if length (strip (elem_text title)) < 10
          then deduct 15 ''Poor/missing page title'' t else t)"

definition check_contact :: "string \<Rightarrow> tally \<Rightarrow> tally" where
  "check_contact txt t =
     (let phones = findall phone_pattern txt; emails = findall email_pattern txt
      in if phones = [] \<and> emails = [] then deduct 20 ''No contact info found'' t else t)"

text \<open>
  The probe of the first five images: an image with a non-empty \<open>src\<close> counts as broken
  when \<open>HEAD\<close> answers 404 or when \<open>urljoin\<close> or the request raises.
\<close>

fun probe_images :: "env \<Rightarrow> string \<Rightarrow> element list \<Rightarrow> nat \<times> event list \<Rightarrow> nat \<times> event list" where
  "probe_images ev u [] (broken_images, log) = (broken_images, log)"
| "probe_images ev u (img # imgs) (broken_images, log) =
     (case attrs img ''src'' of
        None \<Rightarrow> probe_images ev u imgs (broken_images, log)
      | Some src \<Rightarrow>
          if src = [] then probe_images ev u imgs (broken_images, log)
          else (case urljoin ev u src of
                  None \<Rightarrow> probe_images ev u imgs (Suc broken_images, log)
                | Some img_url \<Rightarrow>
                    (case session_head ev log img_url of
                       HeadStatus c \<Rightarrow>
                         probe_images ev u imgs
                           (if c = 404 then Suc broken_images else broken_images,
                            log @ [SessionHead img_url])
                     | HeadError \<Rightarrow>
                         probe_images ev u imgs
                           (Suc broken_images, log @ [SessionHead img_url]))))"

definition check_images :: "nat \<Rightarrow> tally \<Rightarrow> tally" where
  "check_images broken_images t =
     (if broken_images > 0
      then deduct (int broken_images * 5) (str_nat broken_images @ '' broken images'') t
      else t)"

text \<open>The dictionary \<open>extract_business_info\<close> returns; a key it did not set is \<open>None\<close>.\<close>

record business_info =
  info_name :: "string option"
  info_phone :: "string option"
  info_email :: "string option"

definition extract_business_info :: "soup \<Rightarrow> string \<Rightarrow> business_info" where
  "extract_business_info sp text_content =
     (let name1 = (case soup_find sp ''title'' of
                     None \<Rightarrow> None
                   | Some title \<Rightarrow> Some (strip (elem_text title)));
          name2 = (case soup_find sp ''h1'' of
                     None \<Rightarrow> name1
                   | Some h1 \<Rightarrow>
                       if name1 = None \<or> name1 = Some [] then Some (strip (elem_text h1))
                       else name1)
      in \<lparr>info_name = name2,
          info_phone = search phone_pattern text_content,
          info_email = search email_pattern text_content\<rparr>)"

text \<open>\<open>d.get(key, '')\<close>.\<close>

definition get_or_empty :: "string option \<Rightarrow> string" where
  "get_or_empty v = (case v of None \<Rightarrow> [] | Some x \<Rightarrow> x)"

text \<open>
  \<open>analyze_website\<close> from the line after the connectivity test: the status check, the
  parse, the checks in their order, the image probes and the result dictionary. An
  exception of the parse is caught by the outer handler.
\<close>

definition evaluate :: "env \<Rightarrow> string \<Rightarrow> nat \<Rightarrow> string \<Rightarrow> tally \<Rightarrow> event list \<Rightarrow> result \<times> event list" where
  "evaluate ev u status_code content t0 log =
     (let t1 = check_status status_code t0
      in case make_soup ev content of
           Inl e \<Rightarrow> (error_result u (''Analysis error: '' @ e), log)
         | Inr sp \<Rightarrow>
             (let t2 = check_https u t1;
                  t3 = check_viewport sp t2;
                  text_content = lower (get_text sp);
                  current_year = now_year ev log;
                  t4 = check_copyright [CHR 0xA9] current_year text_content t3;
                  t5 = check_lorem text_content t4;
                  t6 = check_construction construction_phrases_full text_content t5;
                  t7 = check_embedded sp t6;
                  t8 = check_charset sp t7;
                  t9 = check_title sp t8;
                  t10 = check_contact text_content t9;
                  images = filter (\<lambda>e. tag e = ''img'') (elements sp);
                  (broken_images, log') = probe_images ev u (take 5 images) (0, log);
                  t11 = check_images broken_images t10;
                  info = extract_business_info sp text_content;
                  score = fst t11
              in (\<lparr>url = u, quality_score = max 0 score, issues = snd t11,
                   status = Analyzed,
                   needs_redesign = Some (score < 50), is_hot_lead = Some (score < 30),
                   business_name = Some (get_or_empty (info_name info)),
                   phone = Some (get_or_empty (info_phone info)),
                   email = Some (get_or_empty (info_email info)),
                   analysis_date = Some (now_stamp ev log')\<rparr>, log')))"

definition analyze_website :: "env \<Rightarrow> string \<Rightarrow> event list \<Rightarrow> result \<times> event list" where
  "analyze_website ev u0 log =
     (let u = ensure_protocol u0;
          log1 = log @ [SessionGet u False]
      in case session_get ev log u False of
           Response status_code content \<Rightarrow> evaluate ev u status_code content (100, []) log1
         | SSLError e \<Rightarrow>
             (let u' = replace ''https://'' ''http://'' u;
                  log2 = log1 @ [SessionGet u' True]
              in case session_get ev log1 u' True of
                   Response status_code content \<Rightarrow>
                     evaluate ev u' status_code content
                       (deduct 20 ''HTTPS not available'' (100, [])) log2
                 | SSLError e' \<Rightarrow> (error_result u' ''Site not accessible'', log2)
                 | RequestError e' \<Rightarrow> (error_result u' ''Site not accessible'', log2))
         | RequestError e \<Rightarrow> (error_result u (''Connection error: '' @ e), log1))"

text \<open>
  The loop of \<open>batch_analyze\<close>, the same in both analyzers: \<open>i\<close> counts from 1,
  \<open>total_n\<close> is the \<open>total\<close> of the source, and the analyzer sleeps after every URL but
  the last. The full analyzer also keeps the list it returns in \<open>self.results\<close>.
\<close>

fun batch_loop ::
  "(string \<Rightarrow> event list \<Rightarrow> result \<times> event list) \<Rightarrow> nat \<Rightarrow> nat \<Rightarrow> nat \<Rightarrow> string list \<Rightarrow>
     result list \<times> event list \<Rightarrow> result list \<times> event list" where
  "batch_loop analyze delay total_n i [] (results, log) = (results, log)"
| "batch_loop analyze delay total_n i (u # us) (results, log) =
     (let (r, log1) = analyze u log;
          log2 = (if i < total_n then log1 @ [Sleep delay] else log1)
      in batch_loop analyze delay total_n (Suc i) us (results @ [r], log2))"

definition batch_analyze :: "env \<Rightarrow> string list \<Rightarrow> nat \<Rightarrow> event list \<Rightarrow> result list \<times> event list" where
  "batch_analyze ev urls delay log =
     batch_loop (analyze_website ev) delay (length urls) 1 urls ([], log)"

section \<open>The simple analyzer (simple_analyzer.py)\<close>

text \<open>
  The state of a \<open>SimpleHTMLParser\<close>. \<open>dict(attrs)\<close> keeps the last value of a repeated
  attribute name.
\<close>

record parser =
  title :: string
  meta_tags :: "(string \<rightharpoonup> string option) list"
  in_title :: bool
  text_content :: string

definition new_parser :: parser where
  "new_parser = \<lparr>title = [], meta_tags = [], in_title = False, text_content = []\<rparr>"

definition dict :: "(string \<times> string option) list \<Rightarrow> (string \<rightharpoonup> string option)" where
  "dict kvs = map_of (rev kvs)"

definition handle_starttag :: "parser \<Rightarrow> string \<Rightarrow> (string \<times> string option) list \<Rightarrow> parser" where
  "handle_starttag p tg atts =
     (if tg = ''title'' then p\<lparr>in_title := True\<rparr>
      else if tg = ''meta'' then p\<lparr>meta_tags := meta_tags p @ [dict atts]\<rparr>
      else p)"

definition handle_endtag :: "parser \<Rightarrow> string \<Rightarrow> parser" where
  "handle_endtag p tg = (if tg = ''title'' then p\<lparr>in_title := False\<rparr> else p)"

definition handle_data :: "parser \<Rightarrow> string \<Rightarrow> parser" where
  "handle_data p data =
     (let p1 = (if in_title p then p\<lparr>title := title p @ strip data\<rparr> else p)
      in p1\<lparr>text_content := text_content p1 @ lower data @ '' ''\<rparr>)"

fun feed :: "parser \<Rightarrow> html_event list \<Rightarrow> parser" where
  "feed p [] = p"
| "feed p (StartTag tg atts # evs) = feed (handle_starttag p tg atts) evs"
| "feed p (EndTag tg # evs) = feed (handle_endtag p tg) evs"
| "feed p (Data data # evs) = feed (handle_data p data) evs"

text \<open>\<open>fetch_url\<close>: the body, or the message of the exception it raises.\<close>

definition fetch_url :: "env \<Rightarrow> event list \<Rightarrow> string \<Rightarrow> string + string" where
  "fetch_url ev log u =
     (case urlopen ev log u of
        Opened content \<Rightarrow> Inr content
      | HTTPError code \<Rightarrow> Inl (''HTTP '' @ str_nat code)
      | URLError reason \<Rightarrow> Inl (''URL Error: '' @ reason)
      | OpenError e \<Rightarrow> Inl (''Connection error: '' @ e))"

text \<open>
  The loop that looks for the viewport tag. \<open>meta.get('name', '')\<close> is \<open>None\<close> for a
  \<open>name\<close> attribute without a value, and \<open>None.lower()\<close> raises \<open>AttributeError\<close>.
\<close>

definition none_has_no_lower :: string where
  "none_has_no_lower =
     [CHR 0x27] @ ''NoneType'' @ [CHR 0x27] @ '' object has no attribute '' @
     [CHR 0x27] @ ''lower'' @ [CHR 0x27]"

fun has_viewport_loop :: "(string \<rightharpoonup> string option) list \<Rightarrow> string + bool" where
  "has_viewport_loop [] = Inr False"
| "has_viewport_loop (meta # metas) =
     (case (case meta ''name'' of None \<Rightarrow> Some [] | Some v \<Rightarrow> v) of
        None \<Rightarrow> Inl none_has_no_lower
      | Some v \<Rightarrow> if lower v = ''viewport'' then Inr True else has_viewport_loop metas)"

definition construction_phrases_simple :: "string list" where
  "construction_phrases_simple =
     [''under construction'', ''coming soon'', ''website under development'',
      ''page under construction'']"

definition initial_result :: "string \<Rightarrow> string \<Rightarrow> result" where
  "initial_result u date =
     \<lparr>url = u, quality_score = 100, issues = [], status = Analyzed,
      needs_redesign = None, is_hot_lead = None, business_name = Some [],
      phone = Some [], email = Some [], analysis_date = Some date\<rparr>"

text \<open>The three assignments of every error exit.\<close>

definition fail_with :: "string \<Rightarrow> result \<Rightarrow> result" where
  "fail_with msg r = r\<lparr>status := Error, issues := [msg], quality_score := 0\<rparr>"

text \<open>
  The simple analyzer keeps the score and the issue list in the result dictionary;
  \<open>with_tally\<close> applies a check to them there.
\<close>

definition with_tally :: "(tally \<Rightarrow> tally) \<Rightarrow> result \<Rightarrow> result" where
  "with_tally f r =
     (let t = f (quality_score r, issues r) in r\<lparr>quality_score := fst t, issues := snd t\<rparr>)"

text \<open>
  \<open>analyze_website\<close> from the parse on. Nothing after the fetch touches \<open>result['url']\<close>:
  it stays the string the analyzer was called with, while the checks look at the local
  \<open>url\<close>. The literal in front of the year is the two code points U+00C2 U+00A9.
\<close>

definition simple_evaluate :: "env \<Rightarrow> string \<Rightarrow> string \<Rightarrow> result \<Rightarrow> event list \<Rightarrow> result" where
  "simple_evaluate ev u response r log =
     (let (events, raised) = html_events ev response;
          p = feed new_parser events;
          r1 = (case raised of
                  None \<Rightarrow> r
                | Some e \<Rightarrow> with_tally (deduct 10 (''HTML parsing error: '' @ e)) r);
          r2 = (if title p \<noteq> [] then r1\<lparr>business_name := Some (take 100 (title p))\<rparr> else r1);
          r3 = with_tally (check_https u) r2
      in case has_viewport_loop (meta_tags p) of
           Inl e \<Rightarrow> fail_with (''Analysis error: '' @ e) r3
         | Inr has_viewport \<Rightarrow>
             (let r4 = (if \<not> has_viewport
                        then with_tally (deduct 15 ''No mobile viewport'') r3 else r3);
                  txt = text_content p;
                  current_year = now_year ev log;
                  r5 = with_tally (check_copyright [CHR 0xC2, CHR 0xA9] current_year txt) r4;
                  r6 = with_tally (check_lorem txt) r5;
                  r7 = with_tally (check_construction construction_phrases_simple txt) r6;
                  phone_match = search phone_pattern txt;
                  email_match = search email_pattern txt;
                  r8 = (case phone_match of None \<Rightarrow> r7 | Some m \<Rightarrow> r7\<lparr>phone := Some m\<rparr>);
                  r9 = (case email_match of None \<Rightarrow> r8 | Some m \<Rightarrow> r8\<lparr>email := Some m\<rparr>);
                  r10 = (if phone_match = None \<and> email_match = None
                         then with_tally (deduct 20 ''No contact info found'') r9 else r9);
                  r11 = r10\<lparr>quality_score := max 0 (quality_score r10)\<rparr>;
                  r12 = r11\<lparr>needs_redesign := Some (quality_score r11 < 50)\<rparr>
              in r12\<lparr>is_hot_lead := Some (quality_score r12 < 30)\<rparr>))"

definition simple_analyze_website :: "env \<Rightarrow> string \<Rightarrow> event list \<Rightarrow> result \<times> event list" where
  "simple_analyze_website ev u0 log =
     (let r = initial_result u0 (now_stamp ev log);
          u = ensure_protocol u0;
          log1 = log @ [UrlOpen u]
      in case fetch_url ev log u of
           Inr response \<Rightarrow> (simple_evaluate ev u response r log1, log1)
         | Inl e \<Rightarrow>
             if startswith ''https://'' u
             then (let u' = replace ''https://'' ''http://'' u;
                       log2 = log1 @ [UrlOpen u']
                   in case fetch_url ev log1 u' of
                        Inr response \<Rightarrow>
                          (simple_evaluate ev u' response
                             (with_tally (deduct 20 ''HTTPS not available'') r) log2, log2)
                      | Inl e' \<Rightarrow> (fail_with (''Site not accessible: '' @ e') r, log2))
             else (fail_with ''Site not accessible'' r, log1))"

definition simple_batch_analyze :: "env \<Rightarrow> string list \<Rightarrow> nat \<Rightarrow> event list \<Rightarrow> result list \<times> event list" where
  "simple_batch_analyze ev urls delay log =
     batch_loop (simple_analyze_website ev) delay (length urls) 1 urls ([], log)"

section \<open>The deduction attached to an issue\<close>

text \<open>
  Each issue string the analyzers append comes with one deduction. The count in front of
  \<open>broken images\<close> is between 1 and 5, since at most five images are probed.
\<close>

definition broken_images_count :: "string \<Rightarrow> nat option" where
  "broken_images_count s = find (\<lambda>n. s = str_nat n @ '' broken images'') [1..<6]"

definition deduction :: "string \<Rightarrow> int" where
  "deduction s =
     (if s = ''HTTPS not available'' then 20
      else if startswith ''HTTP '' s then 30
      else if s = ''No HTTPS'' then 20
      else if s = ''No mobile viewport'' then 15
      else if startswith ''Outdated copyright: '' s then 10
      else if s = ''Contains Lorem ipsum'' then 25
      else if s = ''Under construction'' then 30
      else if s = ''Uses Flash/embedded objects'' then 25
      else if s = ''No charset declaration'' then 5
      else if s = ''Poor/missing page title'' then 15
      else if s = ''No contact info found'' then 20
      else if startswith ''HTML parsing error: '' s then 10
      else case broken_images_count s of Some n \<Rightarrow> 5 * int n | None \<Rightarrow> 0)"

definition explained_score :: "string list \<Rightarrow> int" where
  "explained_score iss = max 0 (100 - sum_list (map deduction iss))"

text \<open>A running tally is accounted for when its score is 100 less the deductions of its issues.\<close>

definition accounted :: "tally \<Rightarrow> bool" where
  "accounted t = (fst t = 100 - sum_list (map deduction (snd t)))"

definition tally_of :: "result \<Rightarrow> tally" where
  "tally_of r = (quality_score r, issues r)"

section \<open>Page requests\<close>

text \<open>
  The events that ask a server for the page itself: the \<open>GET\<close> requests of the full
  analyzer and the \<open>urlopen\<close> calls of the simple one, as opposed to image probes and sleeps.
\<close>

fun is_page_fetch :: "event \<Rightarrow> bool" where
  "is_page_fetch (SessionGet u verify) = True"
| "is_page_fetch (UrlOpen u) = True"
| "is_page_fetch (SessionHead u) = False"
| "is_page_fetch (Sleep n) = False"

section \<open>Sample worlds\<close>

text \<open>
  A world in which every request is answered the same way whatever happened before, every
  image probe answers 200 and the clock stands still in November 2026.
\<close>

definition world ::
  "(string \<Rightarrow> get_outcome) \<Rightarrow> (string + soup) \<Rightarrow> (string \<Rightarrow> open_outcome) \<Rightarrow>
     (html_event list \<times> string option) \<Rightarrow> env" where
  "world getf sp openf evs =
     \<lparr>session_get = (\<lambda>log u verify. getf u),
      session_head = (\<lambda>log u. HeadStatus 200),
      urljoin = (\<lambda>base src. Some (base @ src)),
      make_soup = (\<lambda>content. sp),
      urlopen = (\<lambda>log u. openf u),
      html_events = (\<lambda>content. evs),
      now_year = (\<lambda>log. 2026),
      now_stamp = (\<lambda>log. ''2026-11-04 12:00:00'')\<rparr>"

text \<open>A page with a charset declaration, the title \<open>Home\<close> and a phone number.\<close>

definition home_soup :: soup where
  "home_soup =
     \<lparr>elements =
        [\<lparr>tag = ''meta'', attrs = [''charset'' \<mapsto> ''utf-8''], elem_text = []\<rparr>,
         \<lparr>tag = ''title'', attrs = Map.empty, elem_text = ''Home''\<rparr>],
      get_text = ''Home 864-555-1234''\<rparr>"

definition home_events :: "html_event list" where
  "home_events =
     [StartTag ''meta'' [(''charset'', Some ''utf-8'')],
      StartTag ''title'' [], Data ''Home'', EndTag ''title'',
      Data ''864-555-1234'']"

text \<open>The same page served over plain HTTP only: every \<open>https://\<close> request fails.\<close>

definition http_only_get :: "string \<Rightarrow> get_outcome" where
  "http_only_get u =
     (if startswith ''https://'' u then SSLError ''handshake failure'' else Response 200 [])"

definition http_only_open :: "string \<Rightarrow> open_outcome" where
  "http_only_open u =
     (if startswith ''https://'' u then URLError ''handshake failure'' else Opened [])"

definition http_only_world :: env where
  "http_only_world = world http_only_get (Inr home_soup) http_only_open (home_events, None)"

text \<open>A world without a network: every request raises a connection error.\<close>

definition offline_world :: env where
  "offline_world =
     world (\<lambda>u. RequestError ''unreachable'') (Inr home_soup)
           (\<lambda>u. URLError ''unreachable'') (home_events, None)"

text \<open>A server that answers every request with status 404 and the same page.\<close>

definition not_found_world :: env where
  "not_found_world =
     world (\<lambda>u. Response 404 []) (Inr home_soup) (\<lambda>u. HTTPError 404) (home_events, None)"

text \<open>A page whose only text is a copyright notice of 2016, on a server that answers 200.\<close>

definition copyright_soup :: soup where
  "copyright_soup = \<lparr>elements = [], get_text = CHR 0xA9 # '' 2016 Acme''\<rparr>"

definition copyright_events :: "html_event list" where
  "copyright_events = [Data (CHR 0xA9 # '' 2016 Acme'')]"

definition copyright_world :: env where
  "copyright_world =
     world (\<lambda>u. Response 200 []) (Inr copyright_soup) (\<lambda>u. Opened []) (copyright_events, None)"

text \<open>
  A page served over plain HTTP only whose markup is \<open><meta name>\<close>: a \<open>name\<close> attribute
  without a value.
\<close>

definition valueless_name_world :: env where
  "valueless_name_world =
     world http_only_get (Inr home_soup) http_only_open
       ([StartTag ''meta'' [(''name'', None)]], None)"

text \<open>A page served over plain HTTP only whose markup \<open>BeautifulSoup\<close> rejects.\<close>

definition rejected_markup_world :: env where
  "rejected_markup_world =
     world http_only_get (Inl ''markup rejected'') http_only_open (home_events, None)"

text \<open>A server whose TLS handshake fails on every request, whatever the scheme asked for.\<close>

definition tls_failing_world :: env where
  "tls_failing_world =
     world (\<lambda>u. SSLError ''handshake failure'') (Inr home_soup)
           (\<lambda>u. URLError ''handshake failure'') (home_events, None)"

section \<open>Every deduction is accounted for\<close>

lemma deduction_nonneg: "0 \<le> deduction s"
  by (simp add: deduction_def split: option.splits)

lemma sum_deduction_nonneg: "0 \<le> sum_list (map deduction iss)"
  by (induction iss) (simp_all add: deduction_nonneg)

lemma deduction_http: "deduction (''HTTP '' @ x) = 30"
  by (simp add: deduction_def startswith_def)

lemma deduction_copyright: "deduction (''Outdated copyright: '' @ x) = 10"
  by (simp add: deduction_def startswith_def)

lemma deduction_parse_error: "deduction (''HTML parsing error: '' @ x) = 10"
  by (simp add: deduction_def startswith_def)

lemmas deduction_prefixed =
  deduction_http [simplified] deduction_copyright [simplified] deduction_parse_error [simplified]

lemma deduction_fixed:
  "deduction ''HTTPS not available'' = 20"
  "deduction ''No HTTPS'' = 20"
  "deduction ''No mobile viewport'' = 15"
  "deduction ''Contains Lorem ipsum'' = 25"
  "deduction ''Under construction'' = 30"
  "deduction ''Uses Flash/embedded objects'' = 25"
  "deduction ''No charset declaration'' = 5"
  "deduction ''Poor/missing page title'' = 15"
  "deduction ''No contact info found'' = 20"
  by (simp_all add: deduction_def startswith_def)

lemma str_nat_digit:
  "str_nat (Suc 0) = ''1''" "str_nat 2 = ''2''" "str_nat 3 = ''3''" "str_nat 4 = ''4''"
  "str_nat 5 = ''5''"
  by (simp_all add: str_nat.simps)

lemma upt_1_6: "[Suc 0..<6] = [Suc 0, 2, 3, 4, 5]"
  by (simp add: upt_conv_Cons)

lemma deduction_broken:
  assumes "0 < n" "n \<le> 5"
  shows "deduction (str_nat n @ '' broken images'') = int n * 5"
proof -
  from assms have "n = Suc 0 \<or> n = 2 \<or> n = 3 \<or> n = 4 \<or> n = 5" by arith
  then show ?thesis
    by (elim disjE)
       (simp_all add: deduction_def startswith_def broken_images_count_def upt_1_6 str_nat_digit)
qed

lemma accounted_start: "accounted (100, [])"
  by (simp add: accounted_def)

lemma accounted_deduct: "accounted t \<Longrightarrow> deduction msg = d \<Longrightarrow> accounted (deduct d msg t)"
  by (simp add: accounted_def deduct_def)

lemma accounted_check_status: "accounted t \<Longrightarrow> accounted (check_status c t)"
  by (simp add: check_status_def accounted_deduct deduction_prefixed)

lemma accounted_check_https: "accounted t \<Longrightarrow> accounted (check_https u t)"
  by (simp add: check_https_def accounted_deduct deduction_fixed)

lemma accounted_check_viewport: "accounted t \<Longrightarrow> accounted (check_viewport sp t)"
  by (simp add: check_viewport_def accounted_deduct deduction_fixed split: option.splits)

lemma accounted_check_copyright: "accounted t \<Longrightarrow> accounted (check_copyright sg y txt t)"
  by (simp add: check_copyright_def accounted_deduct deduction_prefixed split: option.splits)

lemma accounted_check_lorem: "accounted t \<Longrightarrow> accounted (check_lorem txt t)"
  by (simp add: check_lorem_def accounted_deduct deduction_fixed)

lemma accounted_check_construction: "accounted t \<Longrightarrow> accounted (check_construction ps txt t)"
  by (simp add: check_construction_def accounted_deduct deduction_fixed split: option.splits)

lemma accounted_check_embedded: "accounted t \<Longrightarrow> accounted (check_embedded sp t)"
  by (simp add: check_embedded_def accounted_deduct deduction_fixed)

lemma accounted_check_charset: "accounted t \<Longrightarrow> accounted (check_charset sp t)"
  by (simp add: check_charset_def accounted_deduct deduction_fixed split: option.splits)

lemma accounted_check_title: "accounted t \<Longrightarrow> accounted (check_title sp t)"
  by (simp add: check_title_def accounted_deduct deduction_fixed split: option.splits)

lemma accounted_check_contact: "accounted t \<Longrightarrow> accounted (check_contact txt t)"
  by (simp add: check_contact_def Let_def accounted_deduct deduction_fixed)

lemma accounted_check_images: "accounted t \<Longrightarrow> n \<le> 5 \<Longrightarrow> accounted (check_images n t)"
  by (simp add: check_images_def accounted_deduct deduction_broken)

lemma probe_images_bound:
  "fst (probe_images ev u imgs (b, log)) \<le> b + length imgs"
proof (induction imgs arbitrary: b log)
  case Nil
  show ?case by simp
next
  case (Cons img imgs)
  have step: "fst (probe_images ev u imgs (b', log')) \<le> Suc (b + length imgs)"
    if "b' \<le> Suc b" for b' log'
    using Cons.IH [of b' log'] that by simp
  show ?case
    by (auto split: option.splits head_outcome.splits intro!: step)
qed

lemma probe_images_five:
  "fst (probe_images ev u (take 5 imgs) (0, log)) \<le> 5"
  using probe_images_bound [of ev u "take 5 imgs" 0 log] by simp

lemma evaluate_parse_error:
  "make_soup ev content = Inl e \<Longrightarrow>
   evaluate ev u sc content t0 log = (error_result u (''Analysis error: '' @ e), log)"
  by (simp add: evaluate_def)

lemma evaluate_parsed:
  assumes "make_soup ev content = Inr sp"
      and "probe_images ev u (take 5 (filter (\<lambda>e. tag e = ''img'') (elements sp))) (0, log) = (b, log')"
      and "check_images b (check_contact (lower (get_text sp)) (check_title sp
                (check_charset sp (check_embedded sp
                (check_construction construction_phrases_full (lower (get_text sp))
                (check_lorem (lower (get_text sp))
                (check_copyright [CHR 0xA9] (now_year ev log) (lower (get_text sp))
                (check_viewport sp (check_https u (check_status sc t0)))))))))) = T"
  shows "evaluate ev u sc content t0 log =
           (\<lparr>url = u, quality_score = max 0 (fst T), issues = snd T, status = Analyzed,
             needs_redesign = Some (fst T < 50), is_hot_lead = Some (fst T < 30),
             business_name =
               Some (get_or_empty (info_name (extract_business_info sp (lower (get_text sp))))),
             phone = Some (get_or_empty (search phone_pattern (lower (get_text sp)))),
             email = Some (get_or_empty (search email_pattern (lower (get_text sp)))),
             analysis_date = Some (now_stamp ev log')\<rparr>, log')"
  using assms(1,2) by (simp add: evaluate_def Let_def extract_business_info_def assms(3) [symmetric])

lemma evaluate_accounted:
  assumes "accounted t0" and "status (fst (evaluate ev u sc content t0 log)) = Analyzed"
  shows "quality_score (fst (evaluate ev u sc content t0 log)) =
           explained_score (issues (fst (evaluate ev u sc content t0 log)))"
proof (cases "make_soup ev content")
  case (Inl e)
  with assms(2) show ?thesis
    by (simp add: evaluate_parse_error error_result_def)
next
  case (Inr sp)
  obtain b log' where pr:
    "probe_images ev u (take 5 (filter (\<lambda>e. tag e = ''img'') (elements sp))) (0, log) = (b, log')"
    by (cases "probe_images ev u (take 5 (filter (\<lambda>e. tag e = ''img'') (elements sp))) (0, log)")
  have b5: "b \<le> 5"
    using probe_images_five [of ev u "filter (\<lambda>e. tag e = ''img'') (elements sp)" log] pr by simp
  define T where "T = check_images b (check_contact (lower (get_text sp)) (check_title sp
                (check_charset sp (check_embedded sp
                (check_construction construction_phrases_full (lower (get_text sp))
                (check_lorem (lower (get_text sp))
                (check_copyright [CHR 0xA9] (now_year ev log) (lower (get_text sp))
                (check_viewport sp (check_https u (check_status sc t0))))))))))"
  have acc: "accounted T"
    unfolding T_def
    by (intro accounted_check_images accounted_check_contact accounted_check_title
          accounted_check_charset accounted_check_embedded accounted_check_construction
          accounted_check_lorem accounted_check_copyright accounted_check_viewport
          accounted_check_https accounted_check_status assms(1) b5)
  show ?thesis
    using acc by (simp add: evaluate_parsed [OF Inr pr T_def [symmetric]] explained_score_def accounted_def)
qed

lemma analyze_website_cases:
  obtains (direct) sc content where
      "session_get ev log (ensure_protocol u0) False = Response sc content"
      "analyze_website ev u0 log =
         evaluate ev (ensure_protocol u0) sc content (100, [])
           (log @ [SessionGet (ensure_protocol u0) False])"
  | (fallback) e sc content where
      "session_get ev log (ensure_protocol u0) False = SSLError e"
      "session_get ev (log @ [SessionGet (ensure_protocol u0) False])
         (replace ''https://'' ''http://'' (ensure_protocol u0)) True = Response sc content"
      "analyze_website ev u0 log =
         evaluate ev (replace ''https://'' ''http://'' (ensure_protocol u0)) sc content
           (deduct 20 ''HTTPS not available'' (100, []))
           (log @ [SessionGet (ensure_protocol u0) False,
                   SessionGet (replace ''https://'' ''http://'' (ensure_protocol u0)) True])"
  | (no_fallback) e where
      "session_get ev log (ensure_protocol u0) False = SSLError e"
      "\<forall>sc content. session_get ev (log @ [SessionGet (ensure_protocol u0) False])
         (replace ''https://'' ''http://'' (ensure_protocol u0)) True \<noteq> Response sc content"
      "analyze_website ev u0 log =
         (error_result (replace ''https://'' ''http://'' (ensure_protocol u0)) ''Site not accessible'',
          log @ [SessionGet (ensure_protocol u0) False,
                 SessionGet (replace ''https://'' ''http://'' (ensure_protocol u0)) True])"
  | (failed) e where
      "session_get ev log (ensure_protocol u0) False = RequestError e"
      "analyze_website ev u0 log =
         (error_result (ensure_protocol u0) (''Connection error: '' @ e),
          log @ [SessionGet (ensure_protocol u0) False])"
proof (cases "session_get ev log (ensure_protocol u0) False")
  case (Response sc content)
  then show ?thesis by (intro direct [of sc content]) (simp_all add: analyze_website_def Let_def)
next
  case (SSLError e)
  show ?thesis
  proof (cases "session_get ev (log @ [SessionGet (ensure_protocol u0) False])
         (replace ''https://'' ''http://'' (ensure_protocol u0)) True")
    case (Response sc content)
    with SSLError show ?thesis
      by (intro fallback [of e sc content]) (simp_all add: analyze_website_def Let_def)
  next
    case (SSLError e')
    with \<open>session_get ev log (ensure_protocol u0) False = SSLError e\<close> show ?thesis
      by (intro no_fallback [of e]) (simp_all add: analyze_website_def Let_def)
  next
    case (RequestError e')
    with SSLError show ?thesis
      by (intro no_fallback [of e]) (simp_all add: analyze_website_def Let_def)
  qed
next
  case (RequestError e)
  then show ?thesis by (intro failed [of e]) (simp_all add: analyze_website_def Let_def)
qed

lemma analyze_website_accounted:
  assumes "status (fst (analyze_website ev u0 log)) = Analyzed"
  shows "quality_score (fst (analyze_website ev u0 log)) =
           explained_score (issues (fst (analyze_website ev u0 log)))"
proof (cases rule: analyze_website_cases [of ev log u0])
  case (direct sc content)
  with assms show ?thesis by (simp add: evaluate_accounted accounted_start)
next
  case (fallback e sc content)
  with assms show ?thesis
    by (simp add: evaluate_accounted accounted_start accounted_deduct deduction_fixed)
next
  case (no_fallback e)
  with assms show ?thesis by (simp add: error_result_def)
next
  case (failed e)
  with assms show ?thesis by (simp add: error_result_def)
qed

lemma with_tally_fields [simp]:
  "quality_score (with_tally f r) = fst (f (tally_of r))"
  "issues (with_tally f r) = snd (f (tally_of r))"
  "url (with_tally f r) = url r"
  "status (with_tally f r) = status r"
  "needs_redesign (with_tally f r) = needs_redesign r"
  "is_hot_lead (with_tally f r) = is_hot_lead r"
  "business_name (with_tally f r) = business_name r"
  "phone (with_tally f r) = phone r"
  "email (with_tally f r) = email r"
  "analysis_date (with_tally f r) = analysis_date r"
  by (simp_all add: with_tally_def tally_of_def Let_def)

lemma tally_of_with_tally [simp]: "tally_of (with_tally f r) = f (tally_of r)"
  by (simp add: tally_of_def)

lemma tally_of_update [simp]:
  "tally_of (r\<lparr>business_name := bn\<rparr>) = tally_of r"
  "tally_of (r\<lparr>phone := ph\<rparr>) = tally_of r"
  "tally_of (r\<lparr>email := em\<rparr>) = tally_of r"
  by (simp_all add: tally_of_def)

lemma with_tally_id: "with_tally id r = r"
  by (simp add: with_tally_def)

lemma if_with_tally: "(if c then with_tally f r else r) = with_tally (if c then f else id) r"
  by (simp add: with_tally_id)

lemma case_with_tally:
  "(case x of None \<Rightarrow> r | Some e \<Rightarrow> with_tally (f e) r) =
   with_tally (case x of None \<Rightarrow> id | Some e \<Rightarrow> f e) r"
  by (cases x) (simp_all add: with_tally_id)

lemma if_business_name:
  "(if c then r\<lparr>business_name := v\<rparr> else r) =
   r\<lparr>business_name := (if c then v else business_name r)\<rparr>"
  by simp

lemma case_phone:
  "(case x of None \<Rightarrow> r | Some m \<Rightarrow> r\<lparr>phone := Some m\<rparr>) =
   r\<lparr>phone := (case x of None \<Rightarrow> phone r | Some m \<Rightarrow> Some m)\<rparr>"
  by (cases x) simp_all

lemma case_email:
  "(case x of None \<Rightarrow> r | Some m \<Rightarrow> r\<lparr>email := Some m\<rparr>) =
   r\<lparr>email := (case x of None \<Rightarrow> email r | Some m \<Rightarrow> Some m)\<rparr>"
  by (cases x) simp_all

lemmas simple_evaluate_unfold =
  simple_evaluate_def Let_def if_with_tally case_with_tally if_business_name case_phone case_email

lemma simple_evaluate_raised:
  assumes "html_events ev response = (events, raised)"
      and "has_viewport_loop (meta_tags (feed new_parser events)) = Inl e"
  shows "status (simple_evaluate ev u response r log) = Error"
    and "issues (simple_evaluate ev u response r log) = [''Analysis error: '' @ e]"
    and "quality_score (simple_evaluate ev u response r log) = 0"
    and "url (simple_evaluate ev u response r log) = url r"
    and "needs_redesign (simple_evaluate ev u response r log) = needs_redesign r"
    and "is_hot_lead (simple_evaluate ev u response r log) = is_hot_lead r"
    and "business_name (simple_evaluate ev u response r log) =
           (if title (feed new_parser events) \<noteq> []
            then Some (take 100 (title (feed new_parser events))) else business_name r)"
    and "phone (simple_evaluate ev u response r log) = phone r"
    and "email (simple_evaluate ev u response r log) = email r"
    and "analysis_date (simple_evaluate ev u response r log) = analysis_date r"
  using assms by (simp_all add: simple_evaluate_unfold fail_with_def)

lemma simple_evaluate_done:
  assumes "html_events ev response = (events, raised)"
      and "has_viewport_loop (meta_tags (feed new_parser events)) = Inr hv"
      and "txt = text_content (feed new_parser events)"
      and "(if search phone_pattern txt = None \<and> search email_pattern txt = None
            then deduct 20 ''No contact info found'' else id)
             (check_construction construction_phrases_simple txt
             (check_lorem txt
             (check_copyright [CHR 0xC2, CHR 0xA9] (now_year ev log) txt
             ((if \<not> hv then deduct 15 ''No mobile viewport'' else id)
             (check_https u
             ((case raised of None \<Rightarrow> id
               | Some e \<Rightarrow> deduct 10 (''HTML parsing error: '' @ e)) (tally_of r))))))) = T"
  shows "status (simple_evaluate ev u response r log) = status r"
    and "issues (simple_evaluate ev u response r log) = snd T"
    and "quality_score (simple_evaluate ev u response r log) = max 0 (fst T)"
    and "url (simple_evaluate ev u response r log) = url r"
    and "needs_redesign (simple_evaluate ev u response r log) = Some (max 0 (fst T) < 50)"
    and "is_hot_lead (simple_evaluate ev u response r log) = Some (max 0 (fst T) < 30)"
    and "phone (simple_evaluate ev u response r log) =
           (case search phone_pattern txt of None \<Rightarrow> phone r | Some m \<Rightarrow> Some m)"
    and "email (simple_evaluate ev u response r log) =
           (case search email_pattern txt of None \<Rightarrow> email r | Some m \<Rightarrow> Some m)"
    and "business_name (simple_evaluate ev u response r log) =
           (if title (feed new_parser events) \<noteq> []
            then Some (take 100 (title (feed new_parser events))) else business_name r)"
    and "analysis_date (simple_evaluate ev u response r log) = analysis_date r"
  using assms(1,2)
  by (simp_all add: simple_evaluate_unfold assms(3) assms(4) [symmetric] cong: option.case_cong)

lemma simple_evaluate_accounted:
  assumes "accounted (tally_of r)"
      and "status (simple_evaluate ev u response r log) = Analyzed"
  shows "quality_score (simple_evaluate ev u response r log) =
           explained_score (issues (simple_evaluate ev u response r log))"
proof -
  obtain events raised where ev: "html_events ev response = (events, raised)"
    by (cases "html_events ev response")
  show ?thesis
  proof (cases "has_viewport_loop (meta_tags (feed new_parser events))")
    case (Inl e)
    with assms(2) ev show ?thesis by (simp add: simple_evaluate_raised)
  next
    case (Inr hv)
    define tx where "tx = text_content (feed new_parser events)"
    define T where "T = (if search phone_pattern tx = None \<and> search email_pattern tx = None
                then deduct 20 ''No contact info found'' else id)
               (check_construction construction_phrases_simple tx
               (check_lorem tx
               (check_copyright [CHR 0xC2, CHR 0xA9] (now_year ev log) tx
               ((if \<not> hv then deduct 15 ''No mobile viewport'' else id)
               (check_https u
               ((case raised of None \<Rightarrow> id
                 | Some e \<Rightarrow> deduct 10 (''HTML parsing error: '' @ e)) (tally_of r)))))))"
    have "accounted ((case raised of None \<Rightarrow> id
                 | Some e \<Rightarrow> deduct 10 (''HTML parsing error: '' @ e)) (tally_of r))"
      using assms(1) by (simp add: accounted_deduct deduction_prefixed split: option.splits)
    then have "accounted ((if \<not> hv then deduct 15 ''No mobile viewport'' else id)
               (check_https u
               ((case raised of None \<Rightarrow> id
                 | Some e \<Rightarrow> deduct 10 (''HTML parsing error: '' @ e)) (tally_of r))))"
      by (simp add: accounted_deduct deduction_fixed accounted_check_https)
    then have "accounted T"
      unfolding T_def
      by (simp add: accounted_deduct deduction_fixed accounted_check_construction
            accounted_check_lorem accounted_check_copyright)
    then show ?thesis
      by (simp add: simple_evaluate_done [OF ev Inr tx_def T_def [symmetric]] explained_score_def accounted_def)
  qed
qed

lemma simple_analyze_website_cases:
  obtains (direct) response where
      "fetch_url ev log (ensure_protocol u0) = Inr response"
      "simple_analyze_website ev u0 log =
         (simple_evaluate ev (ensure_protocol u0) response
            (initial_result u0 (now_stamp ev log)) (log @ [UrlOpen (ensure_protocol u0)]),
          log @ [UrlOpen (ensure_protocol u0)])"
  | (fallback) e response where
      "fetch_url ev log (ensure_protocol u0) = Inl e"
      "startswith ''https://'' (ensure_protocol u0)"
      "fetch_url ev (log @ [UrlOpen (ensure_protocol u0)])
         (replace ''https://'' ''http://'' (ensure_protocol u0)) = Inr response"
      "simple_analyze_website ev u0 log =
         (simple_evaluate ev (replace ''https://'' ''http://'' (ensure_protocol u0)) response
            (with_tally (deduct 20 ''HTTPS not available'') (initial_result u0 (now_stamp ev log)))
            (log @ [UrlOpen (ensure_protocol u0),
                    UrlOpen (replace ''https://'' ''http://'' (ensure_protocol u0))]),
          log @ [UrlOpen (ensure_protocol u0),
                 UrlOpen (replace ''https://'' ''http://'' (ensure_protocol u0))])"
  | (no_fallback) e e' where
      "fetch_url ev log (ensure_protocol u0) = Inl e"
      "startswith ''https://'' (ensure_protocol u0)"
      "fetch_url ev (log @ [UrlOpen (ensure_protocol u0)])
         (replace ''https://'' ''http://'' (ensure_protocol u0)) = Inl e'"
      "simple_analyze_website ev u0 log =
         (fail_with (''Site not accessible: '' @ e') (initial_result u0 (now_stamp ev log)),
          log @ [UrlOpen (ensure_protocol u0),
                 UrlOpen (replace ''https://'' ''http://'' (ensure_protocol u0))])"
  | (failed) e where
      "fetch_url ev log (ensure_protocol u0) = Inl e"
      "\<not> startswith ''https://'' (ensure_protocol u0)"
      "simple_analyze_website ev u0 log =
         (fail_with ''Site not accessible'' (initial_result u0 (now_stamp ev log)),
          log @ [UrlOpen (ensure_protocol u0)])"
proof (cases "fetch_url ev log (ensure_protocol u0)")
  case (Inr response)
  then show ?thesis
    by (intro direct [of response]) (simp_all add: simple_analyze_website_def Let_def)
next
  case (Inl e)
  show ?thesis
  proof (cases "startswith ''https://'' (ensure_protocol u0)")
    case False
    with Inl show ?thesis
      by (intro failed [of e]) (simp_all add: simple_analyze_website_def Let_def)
  next
    case True
    show ?thesis
    proof (cases "fetch_url ev (log @ [UrlOpen (ensure_protocol u0)])
         (replace ''https://'' ''http://'' (ensure_protocol u0))")
      case (Inr response)
      with Inl True show ?thesis
        by (intro fallback [of e response]) (simp_all add: simple_analyze_website_def Let_def)
    next
      case inner: (Inl e')
      with Inl True show ?thesis
        by (intro no_fallback [of e e']) (simp_all add: simple_analyze_website_def Let_def)
    qed
  qed
qed

lemma tally_of_initial [simp]: "tally_of (initial_result u d) = (100, [])"
  by (simp add: tally_of_def initial_result_def)

lemma simple_analyze_website_accounted:
  assumes "status (fst (simple_analyze_website ev u0 log)) = Analyzed"
  shows "quality_score (fst (simple_analyze_website ev u0 log)) =
           explained_score (issues (fst (simple_analyze_website ev u0 log)))"
proof (cases rule: simple_analyze_website_cases [of ev log u0])
  case (direct response)
  with assms show ?thesis by (simp add: simple_evaluate_accounted accounted_start)
next
  case (fallback e response)
  with assms show ?thesis
    by (simp add: simple_evaluate_accounted accounted_start accounted_deduct deduction_fixed)
next
  case (no_fallback e e')
  with assms show ?thesis by (simp add: fail_with_def)
next
  case (failed e)
  with assms show ?thesis by (simp add: fail_with_def)
qed

lemma explained_score_range: "0 \<le> explained_score iss \<and> explained_score iss \<le> 100"
  using sum_deduction_nonneg [of iss] by (simp add: explained_score_def)

section \<open>The shape of a result\<close>

lemma evaluate_shape:
  fixes r :: result
  assumes "r = fst (evaluate ev u sc content t0 log)"
  shows "(status r = Analyzed \<and>
          needs_redesign r = Some (quality_score r < 50) \<and>
          is_hot_lead r = Some (quality_score r < 30) \<and>
          business_name r \<noteq> None \<and> phone r \<noteq> None \<and> email r \<noteq> None \<and>
          analysis_date r \<noteq> None) \<or>
         (status r = Error \<and> quality_score r = 0 \<and> length (issues r) = 1 \<and>
          needs_redesign r = None \<and> is_hot_lead r = None \<and>
          business_name r = None \<and> phone r = None \<and> email r = None \<and>
          analysis_date r = None)"
proof (cases "make_soup ev content")
  case (Inl e)
  with assms show ?thesis by (simp add: evaluate_parse_error error_result_def)
next
  case (Inr sp)
  obtain b log' where pr:
    "probe_images ev u (take 5 (filter (\<lambda>e. tag e = ''img'') (elements sp))) (0, log) = (b, log')"
    by (cases "probe_images ev u (take 5 (filter (\<lambda>e. tag e = ''img'') (elements sp))) (0, log)")
  show ?thesis
    unfolding assms evaluate_parsed [OF Inr pr refl] by simp
qed

lemma analyze_website_shape:
  fixes r :: result
  assumes "r = fst (analyze_website ev u0 log)"
  shows "(status r = Analyzed \<and>
          needs_redesign r = Some (quality_score r < 50) \<and>
          is_hot_lead r = Some (quality_score r < 30) \<and>
          business_name r \<noteq> None \<and> phone r \<noteq> None \<and> email r \<noteq> None \<and>
          analysis_date r \<noteq> None) \<or>
         (status r = Error \<and> quality_score r = 0 \<and> length (issues r) = 1 \<and>
          needs_redesign r = None \<and> is_hot_lead r = None \<and>
          business_name r = None \<and> phone r = None \<and> email r = None \<and>
          analysis_date r = None)"
proof (cases rule: analyze_website_cases [of ev log u0])
  case (direct sc content)
  with assms show ?thesis using evaluate_shape by simp
next
  case (fallback e sc content)
  with assms show ?thesis using evaluate_shape by simp
next
  case (no_fallback e)
  with assms show ?thesis by (simp add: error_result_def)
next
  case (failed e)
  with assms show ?thesis by (simp add: error_result_def)
qed

lemma simple_evaluate_shape:
  fixes r :: result
  assumes "r = simple_evaluate ev u response r0 log"
      and "status r0 = Analyzed" "business_name r0 \<noteq> None" "phone r0 \<noteq> None"
          "email r0 \<noteq> None" "analysis_date r0 \<noteq> None"
          "needs_redesign r0 = None" "is_hot_lead r0 = None"
  shows "(status r = Analyzed \<and>
          needs_redesign r = Some (quality_score r < 50) \<and>
          is_hot_lead r = Some (quality_score r < 30) \<and>
          business_name r \<noteq> None \<and> phone r \<noteq> None \<and> email r \<noteq> None \<and>
          analysis_date r \<noteq> None) \<or>
         (status r = Error \<and> quality_score r = 0 \<and> length (issues r) = 1 \<and>
          needs_redesign r = None \<and> is_hot_lead r = None \<and>
          business_name r \<noteq> None \<and> phone r \<noteq> None \<and> email r \<noteq> None \<and>
          analysis_date r \<noteq> None)"
proof -
  obtain events raised where ev: "html_events ev response = (events, raised)"
    by (cases "html_events ev response")
  show ?thesis
  proof (cases "has_viewport_loop (meta_tags (feed new_parser events))")
    case (Inl e)
    show ?thesis
      unfolding assms(1) using assms(2-)
      by (simp add: simple_evaluate_raised [OF ev Inl])
  next
    case (Inr hv)
    show ?thesis
      unfolding assms(1) using assms(2-)
      by (simp add: simple_evaluate_done [OF ev Inr refl refl] split: option.splits)
  qed
qed

lemma initial_result_fields [simp]:
  "status (initial_result u d) = Analyzed"
  "business_name (initial_result u d) = Some []"
  "phone (initial_result u d) = Some []"
  "email (initial_result u d) = Some []"
  "analysis_date (initial_result u d) = Some d"
  "needs_redesign (initial_result u d) = None"
  "is_hot_lead (initial_result u d) = None"
  "url (initial_result u d) = u"
  by (simp_all add: initial_result_def)

lemma simple_analyze_website_shape:
  fixes r :: result
  assumes "r = fst (simple_analyze_website ev u0 log)"
  shows "(status r = Analyzed \<and>
          needs_redesign r = Some (quality_score r < 50) \<and>
          is_hot_lead r = Some (quality_score r < 30) \<and>
          business_name r \<noteq> None \<and> phone r \<noteq> None \<and> email r \<noteq> None \<and>
          analysis_date r \<noteq> None) \<or>
         (status r = Error \<and> quality_score r = 0 \<and> length (issues r) = 1 \<and>
          needs_redesign r = None \<and> is_hot_lead r = None \<and>
          business_name r \<noteq> None \<and> phone r \<noteq> None \<and> email r \<noteq> None \<and>
          analysis_date r \<noteq> None)"
proof (cases rule: simple_analyze_website_cases [of ev log u0])
  case (direct response)
  with assms have "r = simple_evaluate ev (ensure_protocol u0) response
      (initial_result u0 (now_stamp ev log)) (log @ [UrlOpen (ensure_protocol u0)])"
    by simp
  then show ?thesis by (rule simple_evaluate_shape) simp_all
next
  case (fallback e response)
  with assms have "r = simple_evaluate ev (replace ''https://'' ''http://'' (ensure_protocol u0))
      response (with_tally (deduct 20 ''HTTPS not available'') (initial_result u0 (now_stamp ev log)))
      (log @ [UrlOpen (ensure_protocol u0),
              UrlOpen (replace ''https://'' ''http://'' (ensure_protocol u0))])"
    by simp
  then show ?thesis by (rule simple_evaluate_shape) simp_all
next
  case (no_fallback e e')
  with assms show ?thesis by (simp add: fail_with_def)
next
  case (failed e)
  with assms show ?thesis by (simp add: fail_with_def)
qed

lemma evaluate_url_status:
  "status (fst (evaluate ev u sc content t0 log)) = Analyzed \<longleftrightarrow>
     (\<exists>sp. make_soup ev content = Inr sp)"
  "url (fst (evaluate ev u sc content t0 log)) = u"
proof -
  have "(status (fst (evaluate ev u sc content t0 log)) = Analyzed \<longleftrightarrow>
          (\<exists>sp. make_soup ev content = Inr sp)) \<and>
        url (fst (evaluate ev u sc content t0 log)) = u"
  proof (cases "make_soup ev content")
    case (Inl e)
    then show ?thesis by (simp add: evaluate_parse_error error_result_def)
  next
    case (Inr sp)
    obtain b log' where pr:
      "probe_images ev u (take 5 (filter (\<lambda>e. tag e = ''img'') (elements sp))) (0, log) = (b, log')"
      by (cases "probe_images ev u (take 5 (filter (\<lambda>e. tag e = ''img'') (elements sp))) (0, log)")
    show ?thesis
      unfolding evaluate_parsed [OF Inr pr refl] by (simp add: Inr)
  qed
  then show "status (fst (evaluate ev u sc content t0 log)) = Analyzed \<longleftrightarrow>
          (\<exists>sp. make_soup ev content = Inr sp)"
    and "url (fst (evaluate ev u sc content t0 log)) = u"
    by simp_all
qed

section \<open>Prefixes and replacement\<close>

lemma startswith_iff: "startswith p s \<longleftrightarrow> (\<exists>rest. s = p @ rest)"
  unfolding startswith_def by (metis append_eq_conv_conj append_take_drop_id)

lemma http_not_https: "startswith ''http://'' u \<Longrightarrow> \<not> startswith ''https://'' u"
  by (auto simp add: startswith_iff)

lemma ensure_protocol_http: "startswith ''http://'' u \<Longrightarrow> ensure_protocol u = u"
  by (simp add: ensure_protocol_def)

lemma ensure_protocol_prefix:
  "startswith ''http://'' (ensure_protocol u0) \<or> startswith ''https://'' (ensure_protocol u0)"
  by (simp add: ensure_protocol_def startswith_def)

lemma replace_https_prefix:
  assumes "startswith ''https://'' u"
  shows "startswith ''http://'' (replace ''https://'' ''http://'' u)"
proof -
  from assms obtain rest where "u = ''https://'' @ rest" by (auto simp add: startswith_iff)
  then show ?thesis by (simp add: replace_def startswith_def)
qed

lemma replace_http_prefix:
  assumes "startswith ''http://'' u"
  shows "startswith ''http://'' (replace ''https://'' ''http://'' u)"
proof -
  from assms obtain rest where "u = ''http://'' @ rest" by (auto simp add: startswith_iff)
  then show ?thesis by (simp add: replace_def startswith_def)
qed

lemma replace_prefix:
  "startswith ''http://'' (replace ''https://'' ''http://'' (ensure_protocol u0))"
  using ensure_protocol_prefix [of u0] replace_https_prefix replace_http_prefix by blast

section \<open>Matches of the two patterns\<close>

lemma first_some_None: "first_some xs = None \<longleftrightarrow> (\<forall>x\<in>set xs. x = None)"
  by (induction xs rule: first_some.induct) auto

lemma first_some_Some: "first_some xs = Some y \<Longrightarrow> Some y \<in> set xs"
  by (induction xs rule: first_some.induct) auto

lemma search_None:
  "search p s = None \<longleftrightarrow> (\<forall>i\<le>length s. rx_match p s i = None)"
  by (auto simp add: search_def first_some_None less_Suc_eq_le split: option.splits)

lemma findall_scan_Nil:
  "findall_scan p s is resume = [] \<longleftrightarrow> (\<forall>i\<in>set is. resume \<le> i \<longrightarrow> rx_match p s i = None)"
  by (induction "is" arbitrary: resume) (auto split: option.splits)

lemma findall_Nil: "findall p s = [] \<longleftrightarrow> search p s = None"
  by (auto simp add: findall_def findall_scan_Nil search_None less_Suc_eq_le)

text \<open>A match never ends before it starts nor after the end of the text.\<close>

lemma rx_match_bounds:
  "i \<le> length s \<Longrightarrow> rx_match p s i = Some e \<Longrightarrow> i \<le> e \<and> e \<le> length s"
proof (induction p s i arbitrary: e rule: rx_match.induct)
  case (1 s i)
  then show ?case by simp
next
  case (2 P r s i)
  then show ?case by (fastforce split: if_splits)
next
  case (3 r s i)
  then show ?case by (simp split: if_splits)
next
  case (4 P r s i)
  then show ?case by (fastforce split: if_splits option.splits)
next
  case (5 n P r s i)
  from "5.prems"(2) obtain k where k: "k \<in> set (rev [n..<Suc (length (takeWhile P (drop i s)))])"
    and m: "rx_match r s (i + k) = Some e"
    using first_some_Some by fastforce
  have "length (takeWhile P (drop i s)) \<le> length (drop i s)"
    by (rule length_takeWhile_le)
  with k "5.prems"(1) have "i + k \<le> length s" by auto
  from "5.IH" [OF k this m] show ?case by simp
qed

lemma rx_match_Bnd_Cls:
  assumes "rx_match (Bnd # Cls P # r) s i = Some e"
  shows "i < e \<and> e \<le> length s"
proof -
  from assms have "i < length s" and "rx_match r s (Suc i) = Some e"
    by (simp_all split: if_splits)
  with rx_match_bounds [of "Suc i" s r e] show ?thesis by simp
qed

lemma rx_match_Bnd_AtLeast:
  assumes "rx_match (Bnd # AtLeast n P # r) s i = Some e" and "0 < n" and "i \<le> length s"
  shows "i < e \<and> e \<le> length s"
proof -
  from assms(1) have "first_some (map (\<lambda>k. rx_match r s (i + k))
            (rev [n..<Suc (length (takeWhile P (drop i s)))])) = Some e"
    by (simp split: if_splits)
  then have "Some e \<in> set (map (\<lambda>k. rx_match r s (i + k))
            (rev [n..<Suc (length (takeWhile P (drop i s)))]))"
    by (rule first_some_Some)
  then obtain k where k: "n \<le> k" "k \<le> length (takeWhile P (drop i s))"
    and m: "rx_match r s (i + k) = Some e"
    by auto
  have "length (takeWhile P (drop i s)) \<le> length (drop i s)"
    by (rule length_takeWhile_le)
  with k assms(3) have "i + k \<le> length s" by simp
  from rx_match_bounds [OF this m] k(1) assms(2) show ?thesis by simp
qed

lemma phone_match_longer:
  "i \<le> length s \<Longrightarrow> rx_match phone_pattern s i = Some e \<Longrightarrow> i < e \<and> e \<le> length s"
  unfolding phone_pattern_def by (rule rx_match_Bnd_Cls)

lemma email_match_longer:
  assumes "i \<le> length s" and "rx_match email_pattern s i = Some e"
  shows "i < e \<and> e \<le> length s"
  using assms(2) unfolding email_pattern_def
  by (rule rx_match_Bnd_AtLeast) (simp_all add: assms(1))

lemma search_nonempty:
  assumes "\<And>i e. i \<le> length s \<Longrightarrow> rx_match p s i = Some e \<Longrightarrow> i < e \<and> e \<le> length s"
      and "search p s = Some m"
  shows "m \<noteq> []"
proof -
  let ?f = "\<lambda>i. case rx_match p s i of None \<Rightarrow> None | Some e \<Rightarrow> Some (substr s i e)"
  from assms(2) have "Some m \<in> set (map ?f [0..<Suc (length s)])"
    unfolding search_def by (rule first_some_Some)
  then have "Some m \<in> ?f ` set [0..<Suc (length s)]"
    by (simp only: set_map)
  then obtain i where "i \<in> set [0..<Suc (length s)]" and c: "Some m = ?f i"
    by (rule imageE)
  then have i: "i \<le> length s" by auto
  from c obtain e where e: "rx_match p s i = Some e" and m: "m = substr s i e"
    by (cases "rx_match p s i") auto
  from assms(1) [OF i e] show ?thesis by (simp add: m substr_def)
qed

lemma search_phone_nonempty: "search phone_pattern s = Some m \<Longrightarrow> m \<noteq> []"
  using search_nonempty [of s phone_pattern m] phone_match_longer by blast

lemma search_email_nonempty: "search email_pattern s = Some m \<Longrightarrow> m \<noteq> []"
  using search_nonempty [of s email_pattern m] email_match_longer by blast

lemma get_or_empty_simps: "get_or_empty None = []" "get_or_empty (Some x) = x"
  by (simp_all add: get_or_empty_def)

lemma contact_presence:
  "(findall phone_pattern s = [] \<and> findall email_pattern s = []) \<longleftrightarrow>
   (get_or_empty (search phone_pattern s) = [] \<and> get_or_empty (search email_pattern s) = [])"
  using search_phone_nonempty [of s] search_email_nonempty [of s]
  by (cases "search phone_pattern s"; cases "search email_pattern s")
     (simp_all add: findall_Nil get_or_empty_simps)

section \<open>Issues stay in the list\<close>

lemma issue_kept:
  "x \<in> set (snd t) \<Longrightarrow> x \<in> set (snd (deduct d msg t))"
  "x \<in> set (snd t) \<Longrightarrow> x \<in> set (snd (check_status sc t))"
  "x \<in> set (snd t) \<Longrightarrow> x \<in> set (snd (check_https u t))"
  "x \<in> set (snd t) \<Longrightarrow> x \<in> set (snd (check_viewport sp t))"
  "x \<in> set (snd t) \<Longrightarrow> x \<in> set (snd (check_copyright sg y txt t))"
  "x \<in> set (snd t) \<Longrightarrow> x \<in> set (snd (check_lorem txt t))"
  "x \<in> set (snd t) \<Longrightarrow> x \<in> set (snd (check_construction ps txt t))"
  "x \<in> set (snd t) \<Longrightarrow> x \<in> set (snd (check_embedded sp t))"
  "x \<in> set (snd t) \<Longrightarrow> x \<in> set (snd (check_charset sp t))"
  "x \<in> set (snd t) \<Longrightarrow> x \<in> set (snd (check_title sp t))"
  "x \<in> set (snd t) \<Longrightarrow> x \<in> set (snd (check_contact txt t))"
  "x \<in> set (snd t) \<Longrightarrow> x \<in> set (snd (check_images b t))"
  by (auto simp add: check_status_def check_https_def check_viewport_def check_copyright_def
        check_lorem_def check_construction_def check_embedded_def check_charset_def
        check_title_def check_contact_def check_images_def deduct_def Let_def
        split: option.splits)

lemma evaluate_keeps_issues:
  assumes "status (fst (evaluate ev u sc content t0 log)) = Analyzed"
      and "x \<in> set (snd (check_https u (check_status sc t0)))"
  shows "x \<in> set (issues (fst (evaluate ev u sc content t0 log)))"
proof (cases "make_soup ev content")
  case (Inl e)
  with assms(1) show ?thesis by (simp add: evaluate_parse_error error_result_def)
next
  case (Inr sp)
  obtain b log' where pr:
    "probe_images ev u (take 5 (filter (\<lambda>e. tag e = ''img'') (elements sp))) (0, log) = (b, log')"
    by (cases "probe_images ev u (take 5 (filter (\<lambda>e. tag e = ''img'') (elements sp))) (0, log)")
  show ?thesis
    unfolding evaluate_parsed [OF Inr pr refl]
    by (simp add: issue_kept assms(2))
qed

lemma simple_evaluate_keeps_issues:
  assumes "status (simple_evaluate ev u response r0 log) = Analyzed"
      and "x \<in> set (snd (check_https u (tally_of r0)))"
  shows "x \<in> set (issues (simple_evaluate ev u response r0 log))"
proof -
  obtain events raised where ev: "html_events ev response = (events, raised)"
    by (cases "html_events ev response")
  have parse: "x \<in> set (snd (check_https u
      ((case raised of None \<Rightarrow> id | Some e \<Rightarrow> deduct 10 (''HTML parsing error: '' @ e))
         (tally_of r0))))"
    using assms(2) by (cases raised) (auto simp add: check_https_def deduct_def)
  show ?thesis
  proof (cases "has_viewport_loop (meta_tags (feed new_parser events))")
    case (Inl e)
    with assms(1) ev show ?thesis by (simp add: simple_evaluate_raised)
  next
    case (Inr hv)
    show ?thesis
      using parse
      by (simp add: simple_evaluate_done [OF ev Inr refl refl] issue_kept)
  qed
qed

lemma broken_images_not_contact: "x @ '' broken images'' \<noteq> ''No contact info found''"
proof
  assume "x @ '' broken images'' = ''No contact info found''"
  then have "last (x @ '' broken images'') = last ''No contact info found''" by simp
  then show False by simp
qed

lemma contact_issue_kept:
  "''No contact info found'' \<in> set (snd (check_status sc t)) \<longleftrightarrow>
     ''No contact info found'' \<in> set (snd t)"
  "''No contact info found'' \<in> set (snd (check_https u t)) \<longleftrightarrow>
     ''No contact info found'' \<in> set (snd t)"
  "''No contact info found'' \<in> set (snd (check_viewport sp t)) \<longleftrightarrow>
     ''No contact info found'' \<in> set (snd t)"
  "''No contact info found'' \<in> set (snd (check_copyright sg y txt t)) \<longleftrightarrow>
     ''No contact info found'' \<in> set (snd t)"
  "''No contact info found'' \<in> set (snd (check_lorem txt t)) \<longleftrightarrow>
     ''No contact info found'' \<in> set (snd t)"
  "''No contact info found'' \<in> set (snd (check_construction ps txt t)) \<longleftrightarrow>
     ''No contact info found'' \<in> set (snd t)"
  "''No contact info found'' \<in> set (snd (check_embedded sp t)) \<longleftrightarrow>
     ''No contact info found'' \<in> set (snd t)"
  "''No contact info found'' \<in> set (snd (check_charset sp t)) \<longleftrightarrow>
     ''No contact info found'' \<in> set (snd t)"
  "''No contact info found'' \<in> set (snd (check_title sp t)) \<longleftrightarrow>
     ''No contact info found'' \<in> set (snd t)"
  "''No contact info found'' \<in> set (snd (check_images b t)) \<longleftrightarrow>
     ''No contact info found'' \<in> set (snd t)"
  "''No contact info found'' \<in> set (snd (deduct 20 ''HTTPS not available'' t)) \<longleftrightarrow>
     ''No contact info found'' \<in> set (snd t)"
  "''No contact info found'' \<in> set (snd (deduct 15 ''No mobile viewport'' t)) \<longleftrightarrow>
     ''No contact info found'' \<in> set (snd t)"
  "''No contact info found'' \<in> set (snd (deduct 10 (''HTML parsing error: '' @ e) t)) \<longleftrightarrow>
     ''No contact info found'' \<in> set (snd t)"
  using broken_images_not_contact [of "str_nat b"]
  by (auto simp add: check_status_def check_https_def check_viewport_def check_copyright_def
        check_lorem_def check_construction_def check_embedded_def check_charset_def
        check_title_def check_images_def deduct_def split: option.splits)

lemma contact_issue_check:
  "''No contact info found'' \<in> set (snd (check_contact txt t)) \<longleftrightarrow>
     ''No contact info found'' \<in> set (snd t) \<or>
     (findall phone_pattern txt = [] \<and> findall email_pattern txt = [])"
  by (auto simp add: check_contact_def Let_def deduct_def)

lemma evaluate_contact:
  assumes "''No contact info found'' \<notin> set (snd t0)"
      and "status (fst (evaluate ev u sc content t0 log)) = Analyzed"
  shows "''No contact info found'' \<in> set (issues (fst (evaluate ev u sc content t0 log))) \<longleftrightarrow>
         phone (fst (evaluate ev u sc content t0 log)) = Some [] \<and>
         email (fst (evaluate ev u sc content t0 log)) = Some []"
proof (cases "make_soup ev content")
  case (Inl e)
  with assms(2) show ?thesis by (simp add: evaluate_parse_error error_result_def)
next
  case (Inr sp)
  obtain b log' where pr:
    "probe_images ev u (take 5 (filter (\<lambda>e. tag e = ''img'') (elements sp))) (0, log) = (b, log')"
    by (cases "probe_images ev u (take 5 (filter (\<lambda>e. tag e = ''img'') (elements sp))) (0, log)")
  show ?thesis
    using assms(1)
    by (simp add: evaluate_parsed [OF Inr pr refl] contact_issue_kept contact_issue_check
          contact_presence)
qed

lemma simple_evaluate_contact:
  assumes "''No contact info found'' \<notin> set (issues r0)"
      and "phone r0 = Some []" and "email r0 = Some []"
      and "status (simple_evaluate ev u response r0 log) = Analyzed"
  shows "''No contact info found'' \<in> set (issues (simple_evaluate ev u response r0 log)) \<longleftrightarrow>
         phone (simple_evaluate ev u response r0 log) = Some [] \<and>
         email (simple_evaluate ev u response r0 log) = Some []"
proof -
  obtain events raised where ev: "html_events ev response = (events, raised)"
    by (cases "html_events ev response")
  show ?thesis
  proof (cases "has_viewport_loop (meta_tags (feed new_parser events))")
    case (Inl e)
    with assms(4) ev show ?thesis by (simp add: simple_evaluate_raised)
  next
    case (Inr hv)
    note fields = simple_evaluate_done [OF ev Inr refl refl]
    have start: "''No contact info found'' \<notin> set (snd (tally_of r0))"
      using assms(1) by (simp add: tally_of_def)
    show ?thesis
      using start assms(2,3) search_phone_nonempty search_email_nonempty
      by (auto simp add: fields contact_issue_kept deduct_def split: option.splits)
  qed
qed

section \<open>The copyright check\<close>

text \<open>
  The copyright check in words, for any literal in front of the year: it fires
  exactly when some year of the range is hit, once, with the first such year.
\<close>

lemma find_upt_first:
  "find P [a..<b] = Some y \<longleftrightarrow> a \<le> y \<and> y < b \<and> P y \<and> (\<forall>z. a \<le> z \<and> z < y \<longrightarrow> \<not> P z)"
proof -
  have "find P [a..<b] = Some y \<longleftrightarrow>
        (\<exists>i<length [a..<b]. P ([a..<b] ! i) \<and> y = [a..<b] ! i \<and> (\<forall>j<i. \<not> P ([a..<b] ! j)))"
    by (rule find_Some_iff)
  also have "\<dots> \<longleftrightarrow> a \<le> y \<and> y < b \<and> P y \<and> (\<forall>z. a \<le> z \<and> z < y \<longrightarrow> \<not> P z)"
  proof
    assume "\<exists>i<length [a..<b]. P ([a..<b] ! i) \<and> y = [a..<b] ! i \<and> (\<forall>j<i. \<not> P ([a..<b] ! j))"
    then obtain i where i: "i < b - a" "P (a + i)" "y = a + i" "\<forall>j<i. \<not> P (a + j)"
      by auto
    have "\<not> P z" if "a \<le> z \<and> z < y" for z
    proof -
      from that i(3) have "z - a < i" and "z = a + (z - a)" by auto
      with i(4) show ?thesis by metis
    qed
    with i show "a \<le> y \<and> y < b \<and> P y \<and> (\<forall>z. a \<le> z \<and> z < y \<longrightarrow> \<not> P z)" by simp
  next
    assume r: "a \<le> y \<and> y < b \<and> P y \<and> (\<forall>z. a \<le> z \<and> z < y \<longrightarrow> \<not> P z)"
    then have "y - a < length [a..<b]" "P ([a..<b] ! (y - a))" "y = [a..<b] ! (y - a)"
        "\<forall>j<y - a. \<not> P ([a..<b] ! j)"
      by auto
    then show "\<exists>i<length [a..<b]. P ([a..<b] ! i) \<and> y = [a..<b] ! i \<and> (\<forall>j<i. \<not> P ([a..<b] ! j))"
      by blast
  qed
  finally show ?thesis .
qed

lemma find_upt_None: "find P [a..<b] = None \<longleftrightarrow> (\<forall>y. a \<le> y \<and> y < b \<longrightarrow> \<not> P y)"
  by (auto simp add: find_None_iff)

lemma check_copyright_fires:
  assumes "2015 \<le> y" "y < current_year - 1" "copyright_hit sign txt y"
      and "\<forall>z. 2015 \<le> z \<and> z < y \<longrightarrow> \<not> copyright_hit sign txt z"
  shows "check_copyright sign current_year txt t =
           deduct 10 (''Outdated copyright: '' @ str_nat y) t"
proof -
  have "find (copyright_hit sign txt) [2015..<current_year - 1] = Some y"
    using assms by (simp add: find_upt_first)
  then show ?thesis by (simp add: check_copyright_def)
qed

lemma check_copyright_silent:
  assumes "\<forall>y. 2015 \<le> y \<and> y < current_year - 1 \<longrightarrow> \<not> copyright_hit sign txt y"
  shows "check_copyright sign current_year txt t = t"
proof -
  have "find (copyright_hit sign txt) [2015..<current_year - 1] = None"
    using assms by (simp add: find_upt_None)
  then show ?thesis by (simp add: check_copyright_def)
qed

text \<open>
  Lower-casing never produces U+00C2, so on the text the simple analyzer builds the first
  f-string of its check cannot occur.
\<close>

lemma lower_char_not_C2: "lower_char c \<noteq> CHR 0xC2"
proof -
  have "CHR 0xC2 \<notin> set lower_chars" by (simp add: lower_chars_def)
  moreover have "lower_char c = c \<or> lower_char c \<in> set lower_chars"
  proof (cases "map_of (zip upper_chars lower_chars) c")
    case None
    then show ?thesis by (simp add: lower_char_def)
  next
    case (Some d)
    then have "d \<in> set lower_chars" by (meson in_set_zipE map_of_SomeD)
    with Some show ?thesis by (simp add: lower_char_def)
  qed
  moreover have "lower_char (CHR 0xC2) = CHR 0xE2"
    by (simp add: lower_char_def upper_chars_def lower_chars_def)
  ultimately show ?thesis by (cases "c = CHR 0xC2") auto
qed

lemma contains_member: "contains (c # sub) s \<Longrightarrow> c \<in> set s"
  by (induction s) (auto simp add: startswith_iff)

lemma handle_data_no_C2:
  "CHR 0xC2 \<notin> set (text_content p) \<Longrightarrow> CHR 0xC2 \<notin> set (text_content (handle_data p data))"
  by (auto simp add: handle_data_def Let_def lower_def) (metis lower_char_not_C2)+

lemma feed_no_C2:
  "CHR 0xC2 \<notin> set (text_content p) \<Longrightarrow> CHR 0xC2 \<notin> set (text_content (feed p evs))"
proof (induction p evs rule: feed.induct)
  case (1 p)
  then show ?case by simp
next
  case (2 p tg atts evs)
  then show ?case by (simp add: handle_starttag_def)
next
  case (3 p tg evs)
  then show ?case by (simp add: handle_endtag_def)
next
  case (4 p data evs)
  then show ?case by (simp add: handle_data_no_C2)
qed

lemma simple_sign_never_found:
  "\<not> contains ([CHR 0xC2, CHR 0xA9] @ '' '' @ str_nat y) (text_content (feed new_parser evs))"
proof
  assume "contains ([CHR 0xC2, CHR 0xA9] @ '' '' @ str_nat y) (text_content (feed new_parser evs))"
  then have "CHR 0xC2 \<in> set (text_content (feed new_parser evs))"
    using contains_member [of "CHR 0xC2"] by simp
  moreover have "CHR 0xC2 \<notin> set (text_content (feed new_parser evs))"
    by (rule feed_no_C2) (simp add: new_parser_def)
  ultimately show False by simp
qed

section \<open>Page requests of one analysis\<close>

lemma probe_images_fetches:
  "filter is_page_fetch (snd (probe_images ev u imgs (b, log))) = filter is_page_fetch log"
  by (induction imgs arbitrary: b log) (auto split: option.splits head_outcome.splits)

lemma evaluate_fetches:
  "filter is_page_fetch (snd (evaluate ev u sc content t0 log)) = filter is_page_fetch log"
proof (cases "make_soup ev content")
  case (Inl e)
  then show ?thesis by (simp add: evaluate_parse_error)
next
  case (Inr sp)
  obtain b log' where pr:
    "probe_images ev u (take 5 (filter (\<lambda>e. tag e = ''img'') (elements sp))) (0, log) = (b, log')"
    by (cases "probe_images ev u (take 5 (filter (\<lambda>e. tag e = ''img'') (elements sp))) (0, log)")
  from probe_images_fetches [of ev u "take 5 (filter (\<lambda>e. tag e = ''img'') (elements sp))" 0 log]
  have "filter is_page_fetch log' = filter is_page_fetch log" by (simp add: pr)
  then show ?thesis by (simp add: evaluate_parsed [OF Inr pr refl])
qed

section \<open>The batch loop\<close>

lemma batch_loop_extends:
  "\<exists>new. fst (batch_loop analyze delay total_n i us (results, log)) = results @ new \<and>
         length new = length us"
proof (induction us arbitrary: i results log)
  case Nil
  show ?case by simp
next
  case (Cons u us)
  obtain r log1 where a: "analyze u log = (r, log1)" by (cases "analyze u log")
  obtain new where
    "fst (batch_loop analyze delay total_n (Suc i) us
            (results @ [r], if i < total_n then log1 @ [Sleep delay] else log1)) =
       (results @ [r]) @ new" and "length new = length us"
    using Cons.IH by blast
  then show ?case
    by (intro exI [of _ "r # new"]) (simp add: a Let_def)
qed

lemma batch_loop_length:
  "length (fst (batch_loop analyze delay total_n i us (results, log))) =
     length results + length us"
  using batch_loop_extends [of analyze delay total_n i us results log] by auto

lemma batch_loop_nth:
  "k < length us \<Longrightarrow>
   fst (batch_loop analyze delay total_n i us (results, log)) ! (length results + k) =
     fst (analyze (us ! k) (snd (batch_loop analyze delay total_n i (take k us) (results, log))))"
proof (induction us arbitrary: i results log k)
  case Nil
  then show ?case by simp
next
  case (Cons u us)
  obtain r log1 where a: "analyze u log = (r, log1)" by (cases "analyze u log")
  define log2 where "log2 = (if i < total_n then log1 @ [Sleep delay] else log1)"
  have step: "batch_loop analyze delay total_n i (u # vs) (results, log) =
              batch_loop analyze delay total_n (Suc i) vs (results @ [r], log2)" for vs
    by (simp add: a log2_def Let_def)
  show ?case
  proof (cases k)
    case 0
    obtain new where "fst (batch_loop analyze delay total_n (Suc i) us (results @ [r], log2)) =
        (results @ [r]) @ new"
      using batch_loop_extends [of analyze delay total_n "Suc i" us "results @ [r]" log2] by blast
    then show ?thesis by (simp add: 0 step a nth_append del: batch_loop.simps(2))
  next
    case (Suc j)
    with Cons.prems have j: "j < length us" by simp
    have "fst (batch_loop analyze delay total_n (Suc i) us (results @ [r], log2)) !
            (length (results @ [r]) + j) =
          fst (analyze (us ! j)
            (snd (batch_loop analyze delay total_n (Suc i) (take j us) (results @ [r], log2))))"
      by (rule Cons.IH [OF j])
    then show ?thesis by (simp add: Suc step del: batch_loop.simps(2))
  qed
qed

section \<open>Runs in the sample worlds\<close>

lemma world_sel:
  "session_get (world getf sp openf evs) log u verify = getf u"
  "session_head (world getf sp openf evs) log u = HeadStatus 200"
  "urljoin (world getf sp openf evs) base src = Some (base @ src)"
  "make_soup (world getf sp openf evs) content = sp"
  "urlopen (world getf sp openf evs) log u = openf u"
  "html_events (world getf sp openf evs) content = evs"
  "now_year (world getf sp openf evs) log = 2026"
  "now_stamp (world getf sp openf evs) log = ''2026-11-04 12:00:00''"
  by (simp_all add: world_def)

lemmas http_only_world_sel = world_sel [of http_only_get "Inr home_soup" http_only_open
  "(home_events, None)", folded http_only_world_def]

lemmas string_simps =
  startswith_def ensure_protocol_def replace_def lower_def lower_char_def upper_chars_def
  lower_chars_def strip_def isspace_def code_point_def

lemmas regex_simps =
  search_def findall_def phone_pattern_def email_pattern_def substr_def word_boundary_def
  word_at_def is_word_def is_digit_def is_ascii_alpha_def is_sep_def is_local_def
  is_domain_def is_tld_def code_point_def Let_def

lemmas check_simps =
  deduct_def check_status_def check_https_def check_viewport_def check_copyright_def
  copyright_hit_def check_lorem_def check_construction_def construction_phrases_full_def
  construction_phrases_simple_def
  check_embedded_def check_charset_def check_title_def check_contact_def check_images_def
  soup_find_def extract_business_info_def get_or_empty_def

lemma str_nat_years:
  "str_nat 2015 = ''2015''" "str_nat 2016 = ''2016''" "str_nat 2017 = ''2017''"
  "str_nat 2018 = ''2018''" "str_nat 2019 = ''2019''" "str_nat 2020 = ''2020''"
  "str_nat 2021 = ''2021''" "str_nat 2022 = ''2022''" "str_nat 2023 = ''2023''"
  "str_nat 2024 = ''2024''"
  by (simp_all add: str_nat.simps)

lemma years_2026: "[2015..<2026 - 1] = [2015, 2016, 2017, 2018, 2019, 2020, 2021, 2022, 2023, 2024::nat]"
  by (simp add: upt_rec_numeral)

lemma home_text: "lower (get_text home_soup) = ''home 864-555-1234''"
  by (simp add: home_soup_def string_simps)

lemma home_contact:
  "search phone_pattern ''home 864-555-1234'' = Some ''864-555-1234''"
  "search email_pattern ''home 864-555-1234'' = None"
  "findall phone_pattern ''home 864-555-1234'' = [''864-555-1234'']"
  "findall email_pattern ''home 864-555-1234'' = []"
  by (simp_all add: regex_simps)

lemma home_checks:
  "check_viewport home_soup t = deduct 15 ''No mobile viewport'' t"
  "check_copyright [CHR 0xA9] 2026 ''home 864-555-1234'' t = t"
  "check_lorem ''home 864-555-1234'' t = t"
  "check_construction construction_phrases_full ''home 864-555-1234'' t = t"
  "check_embedded home_soup t = t"
  "check_charset home_soup t = t"
  "check_title home_soup t = deduct 15 ''Poor/missing page title'' t"
  "check_contact ''home 864-555-1234'' t = t"
  "check_images 0 t = t"
  "probe_images ev u (take 5 (filter (\<lambda>e. tag e = ''img'') (elements home_soup))) (0, log) = (0, log)"
  "get_or_empty (info_name (extract_business_info home_soup txt)) = ''Home''"
  by (simp_all add: home_soup_def home_contact years_2026 str_nat_years check_simps
        startswith_def strip_def isspace_def code_point_def)

lemma home_direct_evaluate:
  "evaluate http_only_world ''http://example.com'' 200 [] (100, []) log =
     (\<lparr>url = ''http://example.com'', quality_score = 50,
       issues = [''No HTTPS'', ''No mobile viewport'', ''Poor/missing page title''],
       status = Analyzed, needs_redesign = Some False, is_hot_lead = Some False,
       business_name = Some ''Home'', phone = Some ''864-555-1234'', email = Some [],
       analysis_date = Some ''2026-11-04 12:00:00''\<rparr>, log)"
  using evaluate_parsed [of http_only_world "[]" home_soup "''http://example.com''" log 0 log
          200 "(100, [])"
          "(50, [''No HTTPS'', ''No mobile viewport'', ''Poor/missing page title''])"]
  by (simp add: home_text home_contact home_checks http_only_world_sel check_status_def
        check_https_def deduct_def startswith_def get_or_empty_simps)

lemma http_only_direct_run:
  "analyze_website http_only_world ''http://example.com'' [] =
     (\<lparr>url = ''http://example.com'', quality_score = 50,
       issues = [''No HTTPS'', ''No mobile viewport'', ''Poor/missing page title''],
       status = Analyzed, needs_redesign = Some False, is_hot_lead = Some False,
       business_name = Some ''Home'', phone = Some ''864-555-1234'', email = Some [],
       analysis_date = Some ''2026-11-04 12:00:00''\<rparr>,
      [SessionGet ''http://example.com'' False])"
  by (simp add: analyze_website_def Let_def http_only_world_sel http_only_get_def string_simps
        home_direct_evaluate)

lemmas offline_world_sel = world_sel [of "\<lambda>u. RequestError ''unreachable''" "Inr home_soup"
  "\<lambda>u. URLError ''unreachable''" "(home_events, None)", folded offline_world_def]

lemmas not_found_world_sel = world_sel [of "\<lambda>u. Response 404 []" "Inr home_soup"
  "\<lambda>u. HTTPError 404" "(home_events, None)", folded not_found_world_def]

lemma offline_full_run:
  "analyze_website offline_world ''example.com'' [] =
     (\<lparr>url = ''https://example.com'', quality_score = 0,
       issues = [''Connection error: unreachable''], status = Error,
       needs_redesign = None, is_hot_lead = None, business_name = None,
       phone = None, email = None, analysis_date = None\<rparr>,
      [SessionGet ''https://example.com'' False])"
  by (simp add: analyze_website_def Let_def offline_world_sel error_result_def
        ensure_protocol_def startswith_def)

lemma offline_simple_run:
  "simple_analyze_website offline_world ''example.com'' [] =
     (\<lparr>url = ''example.com'', quality_score = 0,
       issues = [''Site not accessible: URL Error: unreachable''], status = Error,
       needs_redesign = None, is_hot_lead = None, business_name = Some [],
       phone = Some [], email = Some [], analysis_date = Some ''2026-11-04 12:00:00''\<rparr>,
      [UrlOpen ''https://example.com'', UrlOpen ''http://example.com''])"
  by (simp add: simple_analyze_website_def Let_def offline_world_sel fetch_url_def
        initial_result_def fail_with_def ensure_protocol_def startswith_def replace_def)

lemma str_nat_404: "str_nat 404 = ''404''"
  by (simp add: str_nat.simps)

lemma not_found_full_run:
  "analyze_website not_found_world ''http://example.com'' [] =
     (\<lparr>url = ''http://example.com'', quality_score = 20,
       issues = [''HTTP 404'', ''No HTTPS'', ''No mobile viewport'', ''Poor/missing page title''],
       status = Analyzed, needs_redesign = Some True, is_hot_lead = Some True,
       business_name = Some ''Home'', phone = Some ''864-555-1234'', email = Some [],
       analysis_date = Some ''2026-11-04 12:00:00''\<rparr>,
      [SessionGet ''http://example.com'' False])"
proof -
  have "evaluate not_found_world ''http://example.com'' 404 [] (100, [])
          [SessionGet ''http://example.com'' False] =
     (\<lparr>url = ''http://example.com'', quality_score = 20,
       issues = [''HTTP 404'', ''No HTTPS'', ''No mobile viewport'', ''Poor/missing page title''],
       status = Analyzed, needs_redesign = Some True, is_hot_lead = Some True,
       business_name = Some ''Home'', phone = Some ''864-555-1234'', email = Some [],
       analysis_date = Some ''2026-11-04 12:00:00''\<rparr>,
      [SessionGet ''http://example.com'' False])"
    using evaluate_parsed [of not_found_world "[]" home_soup "''http://example.com''"
            "[SessionGet ''http://example.com'' False]" 0
            "[SessionGet ''http://example.com'' False]" 404 "(100, [])"
            "(20, [''HTTP 404'', ''No HTTPS'', ''No mobile viewport'', ''Poor/missing page title''])"]
    by (simp add: home_text home_contact home_checks not_found_world_sel check_status_def
          check_https_def deduct_def startswith_def get_or_empty_simps str_nat_404)
  then show ?thesis
    by (simp add: analyze_website_def Let_def not_found_world_sel ensure_protocol_def
          startswith_def)
qed

lemma offline_full_run_any:
  "analyze_website offline_world ''example.com'' log =
     (\<lparr>url = ''https://example.com'', quality_score = 0,
       issues = [''Connection error: unreachable''], status = Error,
       needs_redesign = None, is_hot_lead = None, business_name = None,
       phone = None, email = None, analysis_date = None\<rparr>,
      log @ [SessionGet ''https://example.com'' False])"
  by (simp add: analyze_website_def Let_def offline_world_sel error_result_def
        ensure_protocol_def startswith_def)

lemmas copyright_world_sel = world_sel [of "\<lambda>u. Response 200 []" "Inr copyright_soup"
  "\<lambda>u. Opened []" "(copyright_events, None)", folded copyright_world_def]

lemmas valueless_name_world_sel = world_sel [of http_only_get "Inr home_soup" http_only_open
  "([StartTag ''meta'' [(''name'', None)]], None)", folded valueless_name_world_def]

lemmas tls_failing_world_sel = world_sel [of "\<lambda>u. SSLError ''handshake failure''" "Inr home_soup"
  "\<lambda>u. URLError ''handshake failure''" "(home_events, None)", folded tls_failing_world_def]

lemma copyright_text: "lower (get_text copyright_soup) = CHR 0xA9 # '' 2016 acme''"
  by (simp add: copyright_soup_def string_simps)

lemma copyright_contact:
  "search phone_pattern (CHR 0xA9 # '' 2016 acme'') = None"
  "search email_pattern (CHR 0xA9 # '' 2016 acme'') = None"
  "search phone_pattern (CHR 0xA9 # '' 2016 acme '') = None"
  "search email_pattern (CHR 0xA9 # '' 2016 acme '') = None"
  by (simp_all add: regex_simps)

lemma copyright_checks:
  "check_viewport copyright_soup t = deduct 15 ''No mobile viewport'' t"
  "check_copyright [CHR 0xA9] 2026 (CHR 0xA9 # '' 2016 acme'') t =
     deduct 10 ''Outdated copyright: 2016'' t"
  "check_copyright [CHR 0xC2, CHR 0xA9] 2026 (CHR 0xA9 # '' 2016 acme '') t = t"
  "check_lorem (CHR 0xA9 # '' 2016 acme'') t = t"
  "check_lorem (CHR 0xA9 # '' 2016 acme '') t = t"
  "check_construction construction_phrases_full (CHR 0xA9 # '' 2016 acme'') t = t"
  "check_construction construction_phrases_simple (CHR 0xA9 # '' 2016 acme '') t = t"
  "check_embedded copyright_soup t = t"
  "check_charset copyright_soup t = deduct 5 ''No charset declaration'' t"
  "check_title copyright_soup t = deduct 15 ''Poor/missing page title'' t"
  "check_contact (CHR 0xA9 # '' 2016 acme'') t = deduct 20 ''No contact info found'' t"
  "probe_images ev u (take 5 (filter (\<lambda>e. tag e = ''img'') (elements copyright_soup))) (0, log) =
     (0, log)"
  "get_or_empty (info_name (extract_business_info copyright_soup txt)) = []"
  by (simp_all add: copyright_soup_def copyright_contact findall_Nil years_2026 str_nat_years
        check_simps startswith_def)

lemma copyright_full_run:
  "analyze_website copyright_world ''https://example.com'' [] =
     (\<lparr>url = ''https://example.com'', quality_score = 35,
       issues = [''No mobile viewport'', ''Outdated copyright: 2016'', ''No charset declaration'',
                 ''Poor/missing page title'', ''No contact info found''],
       status = Analyzed, needs_redesign = Some True, is_hot_lead = Some False,
       business_name = Some [], phone = Some [], email = Some [],
       analysis_date = Some ''2026-11-04 12:00:00''\<rparr>,
      [SessionGet ''https://example.com'' False])"
proof -
  have "evaluate copyright_world ''https://example.com'' 200 [] (100, [])
          [SessionGet ''https://example.com'' False] =
     (\<lparr>url = ''https://example.com'', quality_score = 35,
       issues = [''No mobile viewport'', ''Outdated copyright: 2016'', ''No charset declaration'',
                 ''Poor/missing page title'', ''No contact info found''],
       status = Analyzed, needs_redesign = Some True, is_hot_lead = Some False,
       business_name = Some [], phone = Some [], email = Some [],
       analysis_date = Some ''2026-11-04 12:00:00''\<rparr>,
      [SessionGet ''https://example.com'' False])"
    using evaluate_parsed [of copyright_world "[]" copyright_soup "''https://example.com''"
            "[SessionGet ''https://example.com'' False]" 0
            "[SessionGet ''https://example.com'' False]" 200 "(100, [])"
            "(35, [''No mobile viewport'', ''Outdated copyright: 2016'', ''No charset declaration'',
                 ''Poor/missing page title'', ''No contact info found''])"]
    by (simp add: copyright_text copyright_contact copyright_checks copyright_world_sel
          check_status_def check_https_def check_images_def deduct_def startswith_def
          get_or_empty_simps)
  then show ?thesis
    by (simp add: analyze_website_def Let_def copyright_world_sel ensure_protocol_def
          startswith_def)
qed

lemma copyright_parser:
  "feed new_parser copyright_events =
     \<lparr>title = [], meta_tags = [], in_title = False,
      text_content = CHR 0xA9 # '' 2016 acme ''\<rparr>"
  by (simp add: copyright_events_def new_parser_def handle_data_def Let_def string_simps)

lemma copyright_simple_run:
  "simple_analyze_website copyright_world ''https://example.com'' [] =
     (\<lparr>url = ''https://example.com'', quality_score = 65,
       issues = [''No mobile viewport'', ''No contact info found''],
       status = Analyzed, needs_redesign = Some False, is_hot_lead = Some False,
       business_name = Some [], phone = Some [], email = Some [],
       analysis_date = Some ''2026-11-04 12:00:00''\<rparr>,
      [UrlOpen ''https://example.com''])"
proof -
  let ?init = "initial_result ''https://example.com'' ''2026-11-04 12:00:00''"
  let ?res = "simple_evaluate copyright_world ''https://example.com'' [] ?init
              [UrlOpen ''https://example.com'']"
  have ev: "html_events copyright_world [] = (copyright_events, None)"
    by (simp add: copyright_world_sel)
  have vp: "has_viewport_loop (meta_tags (feed new_parser copyright_events)) = Inr False"
    by (simp add: copyright_parser)
  have T: "(if search phone_pattern (text_content (feed new_parser copyright_events)) = None \<and>
               search email_pattern (text_content (feed new_parser copyright_events)) = None
            then deduct 20 ''No contact info found'' else id)
             (check_construction construction_phrases_simple
                (text_content (feed new_parser copyright_events))
             (check_lorem (text_content (feed new_parser copyright_events))
             (check_copyright [CHR 0xC2, CHR 0xA9]
                (now_year copyright_world [UrlOpen ''https://example.com''])
                (text_content (feed new_parser copyright_events))
             ((if \<not> False then deduct 15 ''No mobile viewport'' else id)
             (check_https ''https://example.com''
             ((case None of None \<Rightarrow> id
               | Some e \<Rightarrow> deduct 10 (''HTML parsing error: '' @ e)) (tally_of ?init))))))) =
           (65, [''No mobile viewport'', ''No contact info found''])"
    by (simp add: copyright_parser copyright_contact copyright_checks copyright_world_sel
          check_https_def deduct_def startswith_def)
  note fields = simple_evaluate_done [where u = "''https://example.com''" and r = ?init
      and log = "[UrlOpen ''https://example.com'']", OF ev vp refl T]
  have "?res = \<lparr>url = ''https://example.com'', quality_score = 65,
       issues = [''No mobile viewport'', ''No contact info found''],
       status = Analyzed, needs_redesign = Some False, is_hot_lead = Some False,
       business_name = Some [], phone = Some [], email = Some [],
       analysis_date = Some ''2026-11-04 12:00:00''\<rparr>"
    by (rule result.equality)
       (simp_all add: fields copyright_parser copyright_contact)
  then show ?thesis
    by (simp add: simple_analyze_website_def Let_def copyright_world_sel fetch_url_def
          ensure_protocol_def startswith_def)
qed

lemma tls_failing_full_run:
  "analyze_website tls_failing_world ''http://example.com'' [] =
     (\<lparr>url = ''http://example.com'', quality_score = 0,
       issues = [''Site not accessible''], status = Error,
       needs_redesign = None, is_hot_lead = None, business_name = None,
       phone = None, email = None, analysis_date = None\<rparr>,
      [SessionGet ''http://example.com'' False, SessionGet ''http://example.com'' True])"
  by (simp add: analyze_website_def Let_def tls_failing_world_sel error_result_def
        ensure_protocol_def startswith_def replace_def)

lemma http_only_fallback_run:
  "analyze_website http_only_world ''example.com'' [] =
     (\<lparr>url = ''http://example.com'', quality_score = 30,
       issues = [''HTTPS not available'', ''No HTTPS'', ''No mobile viewport'',
                 ''Poor/missing page title''],
       status = Analyzed, needs_redesign = Some True, is_hot_lead = Some False,
       business_name = Some ''Home'', phone = Some ''864-555-1234'', email = Some [],
       analysis_date = Some ''2026-11-04 12:00:00''\<rparr>,
      [SessionGet ''https://example.com'' False, SessionGet ''http://example.com'' True])"
proof -
  have "evaluate http_only_world ''http://example.com'' 200 [] (80, [''HTTPS not available''])
          [SessionGet ''https://example.com'' False, SessionGet ''http://example.com'' True] =
     (\<lparr>url = ''http://example.com'', quality_score = 30,
       issues = [''HTTPS not available'', ''No HTTPS'', ''No mobile viewport'',
                 ''Poor/missing page title''],
       status = Analyzed, needs_redesign = Some True, is_hot_lead = Some False,
       business_name = Some ''Home'', phone = Some ''864-555-1234'', email = Some [],
       analysis_date = Some ''2026-11-04 12:00:00''\<rparr>,
      [SessionGet ''https://example.com'' False, SessionGet ''http://example.com'' True])"
    using evaluate_parsed [of http_only_world "[]" home_soup "''http://example.com''"
            "[SessionGet ''https://example.com'' False, SessionGet ''http://example.com'' True]" 0
            "[SessionGet ''https://example.com'' False, SessionGet ''http://example.com'' True]"
            200 "(80, [''HTTPS not available''])"
            "(30, [''HTTPS not available'', ''No HTTPS'', ''No mobile viewport'',
                   ''Poor/missing page title''])"]
    by (simp add: home_text home_contact home_checks http_only_world_sel check_status_def
          check_https_def deduct_def startswith_def get_or_empty_simps)
  then show ?thesis
    by (simp add: analyze_website_def Let_def http_only_world_sel http_only_get_def
          ensure_protocol_def startswith_def replace_def deduct_def)
qed

lemma not_found_simple_run:
  "simple_analyze_website not_found_world ''http://example.com'' [] =
     (\<lparr>url = ''http://example.com'', quality_score = 0,
       issues = [''Site not accessible''], status = Error,
       needs_redesign = None, is_hot_lead = None, business_name = Some [],
       phone = Some [], email = Some [], analysis_date = Some ''2026-11-04 12:00:00''\<rparr>,
      [UrlOpen ''http://example.com''])"
  by (simp add: simple_analyze_website_def Let_def not_found_world_sel fetch_url_def
        initial_result_def fail_with_def ensure_protocol_def startswith_def)

lemma valueless_name_simple_run:
  "status (fst (simple_analyze_website valueless_name_world ''example.com'' [])) = Error"
  "issues (fst (simple_analyze_website valueless_name_world ''example.com'' [])) =
     [''Analysis error: '' @ none_has_no_lower]"
  "quality_score (fst (simple_analyze_website valueless_name_world ''example.com'' [])) = 0"
  "url (fst (simple_analyze_website valueless_name_world ''example.com'' [])) = ''example.com''"
  "snd (simple_analyze_website valueless_name_world ''example.com'' []) =
     [UrlOpen ''https://example.com'', UrlOpen ''http://example.com'']"
proof -
  have run: "simple_analyze_website valueless_name_world ''example.com'' [] =
      (simple_evaluate valueless_name_world ''http://example.com'' []
         (with_tally (deduct 20 ''HTTPS not available'')
            (initial_result ''example.com'' ''2026-11-04 12:00:00''))
         [UrlOpen ''https://example.com'', UrlOpen ''http://example.com''],
       [UrlOpen ''https://example.com'', UrlOpen ''http://example.com''])"
    by (simp add: simple_analyze_website_def Let_def valueless_name_world_sel fetch_url_def
          http_only_open_def ensure_protocol_def startswith_def replace_def)
  have ev: "html_events valueless_name_world [] = ([StartTag ''meta'' [(''name'', None)]], None)"
    by (simp add: valueless_name_world_sel)
  have vp: "has_viewport_loop (meta_tags (feed new_parser [StartTag ''meta'' [(''name'', None)]])) =
      Inl none_has_no_lower"
    by (simp add: new_parser_def handle_starttag_def dict_def)
  note raised = simple_evaluate_raised [OF ev vp]
  show "status (fst (simple_analyze_website valueless_name_world ''example.com'' [])) = Error"
    and "issues (fst (simple_analyze_website valueless_name_world ''example.com'' [])) =
      [''Analysis error: '' @ none_has_no_lower]"
    and "quality_score (fst (simple_analyze_website valueless_name_world ''example.com'' [])) = 0"
    and "url (fst (simple_analyze_website valueless_name_world ''example.com'' [])) = ''example.com''"
    and "snd (simple_analyze_website valueless_name_world ''example.com'' []) =
      [UrlOpen ''https://example.com'', UrlOpen ''http://example.com'']"
    by (simp_all add: run raised)
qed

lemmas rejected_markup_world_sel = world_sel [of http_only_get "Inl ''markup rejected''"
  http_only_open "(home_events, None)", folded rejected_markup_world_def]

lemma rejected_markup_full_run:
  "analyze_website rejected_markup_world ''example.com'' [] =
     (\<lparr>url = ''http://example.com'', quality_score = 0,
       issues = [''Analysis error: markup rejected''], status = Error,
       needs_redesign = None, is_hot_lead = None, business_name = None,
       phone = None, email = None, analysis_date = None\<rparr>,
      [SessionGet ''https://example.com'' False, SessionGet ''http://example.com'' True])"
  by (simp add: analyze_website_def Let_def rejected_markup_world_sel http_only_get_def
        evaluate_parse_error error_result_def ensure_protocol_def startswith_def replace_def)

section \<open>Properties of the specification\<close>

text \<open>
  C1. For every result with status \<open>analyzed\<close>, of either analyzer, the recorded score is
  \<open>max(0, 100 - sum)\<close>, where the sum adds the deduction attached to each issue string in
  its issue list; hence the score lies between 0 and 100.
\<close>

theorem analyzed_score_is_explained:
  assumes "r = fst (analyze_website ev u0 log) \<or> r = fst (simple_analyze_website ev u0 log)"
      and "status r = Analyzed"
  shows "quality_score r = max 0 (100 - sum_list (map deduction (issues r))) \<and>
         0 \<le> quality_score r \<and> quality_score r \<le> 100"
proof -
  have "quality_score r = explained_score (issues r)"
    using assms analyze_website_accounted simple_analyze_website_accounted by blast
  then show ?thesis
    using explained_score_range [of "issues r"] by (simp add: explained_score_def)
qed

theorem analyzed_score_is_explained_witness:
  "status (fst (analyze_website http_only_world ''http://example.com'' [])) = Analyzed \<and>
   quality_score (fst (analyze_website http_only_world ''http://example.com'' [])) =
     max 0 (100 - sum_list (map deduction
       (issues (fst (analyze_website http_only_world ''http://example.com'' []))))) \<and>
   0 \<le> quality_score (fst (analyze_website http_only_world ''http://example.com'' [])) \<and>
   quality_score (fst (analyze_website http_only_world ''http://example.com'' [])) \<le> 100"
proof -
  have analyzed: "status (fst (analyze_website http_only_world ''http://example.com'' [])) = Analyzed"
    by (simp add: http_only_direct_run)
  show ?thesis
    using analyzed_score_is_explained [OF disjI1 [OF refl] analyzed] analyzed by blast
qed

text \<open>
  C2. For every analyzed result, of either analyzer, \<open>needs_redesign\<close> is
  \<open>quality_score < 50\<close> and \<open>is_hot_lead\<close> is \<open>quality_score < 30\<close>, with the recorded
  (clamped) score. An error result carries neither key. In every result a hot lead needs
  a redesign.
\<close>

theorem lead_flags_follow_score:
  assumes "r = fst (analyze_website ev u0 log) \<or> r = fst (simple_analyze_website ev u0 log)"
  shows "(status r = Analyzed \<longrightarrow>
            needs_redesign r = Some (quality_score r < 50) \<and>
            is_hot_lead r = Some (quality_score r < 30)) \<and>
         (status r = Error \<longrightarrow> needs_redesign r = None \<and> is_hot_lead r = None) \<and>
         (is_hot_lead r = Some True \<longrightarrow> needs_redesign r = Some True)"
  using assms analyze_website_shape [of r ev u0 log] simple_analyze_website_shape [of r ev u0 log]
  by auto

theorem lead_flags_follow_score_witness:
  "status (fst (analyze_website not_found_world ''http://example.com'' [])) = Analyzed \<and>
   needs_redesign (fst (analyze_website not_found_world ''http://example.com'' [])) =
     Some (quality_score (fst (analyze_website not_found_world ''http://example.com'' [])) < 50) \<and>
   is_hot_lead (fst (analyze_website not_found_world ''http://example.com'' [])) =
     Some (quality_score (fst (analyze_website not_found_world ''http://example.com'' [])) < 30) \<and>
   is_hot_lead (fst (analyze_website not_found_world ''http://example.com'' [])) = Some True \<and>
   needs_redesign (fst (analyze_website not_found_world ''http://example.com'' [])) = Some True \<and>
   status (fst (simple_analyze_website offline_world ''example.com'' [])) = Error \<and>
   needs_redesign (fst (simple_analyze_website offline_world ''example.com'' [])) = None \<and>
   is_hot_lead (fst (simple_analyze_website offline_world ''example.com'' [])) = None"
proof -
  have a: "status (fst (analyze_website not_found_world ''http://example.com'' [])) = Analyzed"
    and h: "is_hot_lead (fst (analyze_website not_found_world ''http://example.com'' [])) = Some True"
    by (simp_all add: not_found_full_run)
  have e: "status (fst (simple_analyze_website offline_world ''example.com'' [])) = Error"
    by (simp add: offline_simple_run)
  show ?thesis
    using lead_flags_follow_score [OF disjI1 [OF refl], of not_found_world "''http://example.com''" "[]"]
          lead_flags_follow_score [OF disjI2 [OF refl], of offline_world "''example.com''" "[]"]
          a h e
    by blast
qed

text \<open>
  Without the restriction to analyzed results the two equations fail: the error result for
  an unreachable site has score 0 and neither flag.
\<close>

theorem error_result_has_no_lead_flags:
  "quality_score (fst (analyze_website offline_world ''example.com'' [])) = 0 \<and>
   is_hot_lead (fst (analyze_website offline_world ''example.com'' [])) \<noteq>
     Some (quality_score (fst (analyze_website offline_world ''example.com'' [])) < 30) \<and>
   needs_redesign (fst (analyze_website offline_world ''example.com'' [])) \<noteq>
     Some (quality_score (fst (analyze_website offline_world ''example.com'' [])) < 50)"
  by (simp add: offline_full_run)

text \<open>
  C3. A page fetched over \<open>http://\<close> with status 200, with no viewport meta tag and a
  title of stripped length 4, on which no other check is triggered, gets exactly the
  issues \<open>No HTTPS\<close>, \<open>No mobile viewport\<close> and \<open>Poor/missing page title\<close> and the score
  \<open>100 - 20 - 15 - 15 = 50\<close>; since 50 is not below 50, \<open>needs_redesign\<close> is false, and
  \<open>is_hot_lead\<close> is false.
\<close>

theorem scenario_a_scores_fifty:
  assumes "startswith ''http://'' u0"
      and "session_get ev log u0 False = Response 200 content"
      and "make_soup ev content = Inr sp"
      and "find (\<lambda>e. tag e = ''meta'' \<and> attrs e ''name'' = Some ''viewport'') (elements sp) = None"
      and "soup_find sp ''title'' = Some t" and "length (strip (elem_text t)) = 4"
      and "find (copyright_hit [CHR 0xA9] (lower (get_text sp)))
             [2015..<now_year ev (log @ [SessionGet u0 False]) - 1] = None"
      and "\<not> contains ''lorem ipsum'' (lower (get_text sp))"
      and "find (\<lambda>phrase. contains phrase (lower (get_text sp))) construction_phrases_full = None"
      and "soup_find sp ''object'' = None" and "soup_find sp ''embed'' = None"
      and "find (\<lambda>e. tag e = ''meta'' \<and> attrs e ''charset'' \<noteq> None) (elements sp) = Some m"
      and "findall phone_pattern (lower (get_text sp)) \<noteq> [] \<or>
           findall email_pattern (lower (get_text sp)) \<noteq> []"
      and "probe_images ev u0 (take 5 (filter (\<lambda>e. tag e = ''img'') (elements sp)))
             (0, log @ [SessionGet u0 False]) = (0, log')"
      and "r = fst (analyze_website ev u0 log)"
  shows "status r = Analyzed \<and>
         issues r = [''No HTTPS'', ''No mobile viewport'', ''Poor/missing page title''] \<and>
         quality_score r = 50 \<and> needs_redesign r = Some False \<and> is_hot_lead r = Some False"
proof -
  have chain: "check_images 0 (check_contact (lower (get_text sp)) (check_title sp
                (check_charset sp (check_embedded sp
                (check_construction construction_phrases_full (lower (get_text sp))
                (check_lorem (lower (get_text sp))
                (check_copyright [CHR 0xA9] (now_year ev (log @ [SessionGet u0 False]))
                   (lower (get_text sp))
                (check_viewport sp (check_https u0 (check_status 200 (100, []))))))))))) =
        (50, [''No HTTPS'', ''No mobile viewport'', ''Poor/missing page title''])"
    using assms(4-13) http_not_https [OF assms(1)]
    by (auto simp add: check_images_def check_contact_def check_title_def check_charset_def
          check_embedded_def check_construction_def check_lorem_def check_copyright_def
          check_viewport_def check_https_def check_status_def deduct_def)
  have "analyze_website ev u0 log =
          evaluate ev u0 200 content (100, []) (log @ [SessionGet u0 False])"
    using assms(2) by (simp add: analyze_website_def Let_def ensure_protocol_http [OF assms(1)])
  then show ?thesis
    unfolding assms(15) by (simp add: evaluate_parsed [OF assms(3) assms(14) chain])
qed

theorem scenario_a_scores_fifty_witness:
  "status (fst (analyze_website http_only_world ''http://example.com/'' [])) = Analyzed \<and>
   issues (fst (analyze_website http_only_world ''http://example.com/'' [])) =
     [''No HTTPS'', ''No mobile viewport'', ''Poor/missing page title''] \<and>
   quality_score (fst (analyze_website http_only_world ''http://example.com/'' [])) = 50 \<and>
   needs_redesign (fst (analyze_website http_only_world ''http://example.com/'' [])) = Some False \<and>
   is_hot_lead (fst (analyze_website http_only_world ''http://example.com/'' [])) = Some False"
proof (rule scenario_a_scores_fifty [of "''http://example.com/''" http_only_world "[]" "[]" home_soup
         "\<lparr>tag = ''title'', attrs = Map.empty, elem_text = ''Home''\<rparr>"
         "\<lparr>tag = ''meta'', attrs = [''charset'' \<mapsto> ''utf-8''], elem_text = []\<rparr>"
         "[SessionGet ''http://example.com/'' False]"])
  show "startswith ''http://'' ''http://example.com/''"
    by (simp add: startswith_def)
  show "session_get http_only_world [] ''http://example.com/'' False = Response 200 []"
    by (simp add: http_only_world_sel http_only_get_def startswith_def)
  show "make_soup http_only_world [] = Inr home_soup"
    by (simp add: http_only_world_sel)
  show "find (\<lambda>e. tag e = ''meta'' \<and> attrs e ''name'' = Some ''viewport'') (elements home_soup) = None"
    by (simp add: home_soup_def)
  show "soup_find home_soup ''title'' = Some \<lparr>tag = ''title'', attrs = Map.empty, elem_text = ''Home''\<rparr>"
    by (simp add: home_soup_def soup_find_def)
  show "length (strip (elem_text \<lparr>tag = ''title'', attrs = Map.empty, elem_text = ''Home''\<rparr>)) = 4"
    by (simp add: strip_def isspace_def code_point_def)
  show "find (copyright_hit [CHR 0xA9] (lower (get_text home_soup)))
          [2015..<now_year http_only_world ([] @ [SessionGet ''http://example.com/'' False]) - 1] = None"
    by (simp add: home_text http_only_world_sel years_2026 copyright_hit_def str_nat_years
          startswith_def)
  show "\<not> contains ''lorem ipsum'' (lower (get_text home_soup))"
    by (simp add: home_text startswith_def)
  show "find (\<lambda>phrase. contains phrase (lower (get_text home_soup))) construction_phrases_full = None"
    by (simp add: home_text construction_phrases_full_def startswith_def)
  show "soup_find home_soup ''object'' = None" "soup_find home_soup ''embed'' = None"
    by (simp_all add: home_soup_def soup_find_def)
  show "find (\<lambda>e. tag e = ''meta'' \<and> attrs e ''charset'' \<noteq> None) (elements home_soup) =
          Some \<lparr>tag = ''meta'', attrs = [''charset'' \<mapsto> ''utf-8''], elem_text = []\<rparr>"
    by (simp add: home_soup_def)
  show "findall phone_pattern (lower (get_text home_soup)) \<noteq> [] \<or>
        findall email_pattern (lower (get_text home_soup)) \<noteq> []"
    by (simp add: home_text home_contact)
  show "probe_images http_only_world ''http://example.com/''
          (take 5 (filter (\<lambda>e. tag e = ''img'') (elements home_soup)))
          (0, [] @ [SessionGet ''http://example.com/'' False]) =
        (0, [SessionGet ''http://example.com/'' False])"
    by (simp add: home_checks)
qed simp

text \<open>
  On the sample page the three issues and the score 50 come with \<open>needs_redesign\<close> false,
  not true.
\<close>

theorem scenario_a_needs_no_redesign:
  "issues (fst (analyze_website http_only_world ''http://example.com'' [])) =
     [''No HTTPS'', ''No mobile viewport'', ''Poor/missing page title''] \<and>
   quality_score (fst (analyze_website http_only_world ''http://example.com'' [])) = 50 \<and>
   needs_redesign (fst (analyze_website http_only_world ''http://example.com'' [])) \<noteq> Some True"
  by (simp add: http_only_direct_run)

text \<open>
  C4. In the full analyzer a request that yields an HTTP response, the first or the
  fallback one, is never a fetch failure whatever the status code: when the parser accepts
  the body the result has status \<open>analyzed\<close>, and every status code other than 200 puts the
  issue \<open>HTTP {status}\<close>, worth 30 points, in the result. In the simple analyzer an HTTP
  error status that \<open>urlopen\<close> raises is a fetch failure like any other: the fetch raises
  \<open>HTTP {status}\<close>, which starts the fallback for an \<open>https://\<close> URL and otherwise ends in an
  error result with the one issue \<open>Site not accessible\<close> and score 0.
\<close>

theorem http_response_is_scored:
  assumes "session_get ev log (ensure_protocol u0) False = Response sc content \<or>
           (session_get ev log (ensure_protocol u0) False = SSLError e \<and>
            session_get ev (log @ [SessionGet (ensure_protocol u0) False])
              (replace ''https://'' ''http://'' (ensure_protocol u0)) True = Response sc content)"
      and "make_soup ev content = Inr sp"
      and "urlopen ev' log' (ensure_protocol u1) = HTTPError code"
  shows "status (fst (analyze_website ev u0 log)) = Analyzed \<and>
         (sc = 200 \<or>
          ''HTTP '' @ str_nat sc \<in> set (issues (fst (analyze_website ev u0 log)))) \<and>
         deduction (''HTTP '' @ str_nat sc) = 30 \<and>
         quality_score (fst (analyze_website ev u0 log)) =
           max 0 (100 - sum_list (map deduction (issues (fst (analyze_website ev u0 log))))) \<and>
         fetch_url ev' log' (ensure_protocol u1) = Inl (''HTTP '' @ str_nat code) \<and>
         (if startswith ''https://'' (ensure_protocol u1)
          then take (length log' + 2) (snd (simple_analyze_website ev' u1 log')) =
                 log' @ [UrlOpen (ensure_protocol u1),
                         UrlOpen (replace ''https://'' ''http://'' (ensure_protocol u1))]
          else status (fst (simple_analyze_website ev' u1 log')) = Error \<and>
               issues (fst (simple_analyze_website ev' u1 log')) = [''Site not accessible''] \<and>
               quality_score (fst (simple_analyze_website ev' u1 log')) = 0)"
proof -
  have run: "\<exists>t0 l. analyze_website ev u0 log = evaluate ev (url (fst (analyze_website ev u0 log)))
               sc content t0 l \<and> accounted t0"
    using assms(1)
  proof
    assume "session_get ev log (ensure_protocol u0) False = Response sc content"
    then have "analyze_website ev u0 log = evaluate ev (ensure_protocol u0) sc content (100, [])
        (log @ [SessionGet (ensure_protocol u0) False])"
      by (simp add: analyze_website_def Let_def)
    then show ?thesis using accounted_start by (metis evaluate_url_status(2))
  next
    assume "session_get ev log (ensure_protocol u0) False = SSLError e \<and>
            session_get ev (log @ [SessionGet (ensure_protocol u0) False])
              (replace ''https://'' ''http://'' (ensure_protocol u0)) True = Response sc content"
    then have "analyze_website ev u0 log =
        evaluate ev (replace ''https://'' ''http://'' (ensure_protocol u0)) sc content
          (deduct 20 ''HTTPS not available'' (100, []))
          (log @ [SessionGet (ensure_protocol u0) False,
                  SessionGet (replace ''https://'' ''http://'' (ensure_protocol u0)) True])"
      by (simp add: analyze_website_def Let_def)
    moreover have "accounted (deduct 20 ''HTTPS not available'' (100, []))"
      by (simp add: accounted_deduct accounted_start deduction_fixed)
    ultimately show ?thesis by (metis evaluate_url_status(2))
  qed
  then obtain t0 l where eq: "analyze_website ev u0 log =
      evaluate ev (url (fst (analyze_website ev u0 log))) sc content t0 l" and acc: "accounted t0"
    by blast
  have st: "status (fst (analyze_website ev u0 log)) = Analyzed"
    by (subst eq) (simp add: evaluate_url_status assms(2))
  have http: "''HTTP '' @ str_nat sc \<in> set (issues (fst (analyze_website ev u0 log)))"
    if "sc \<noteq> 200"
  proof -
    have "''HTTP '' @ str_nat sc \<in>
            set (snd (check_https (url (fst (analyze_website ev u0 log))) (check_status sc t0)))"
      using that by (simp add: check_https_def check_status_def deduct_def)
    with st eq show ?thesis by (metis evaluate_keeps_issues)
  qed
  have score: "quality_score (fst (analyze_website ev u0 log)) =
      max 0 (100 - sum_list (map deduction (issues (fst (analyze_website ev u0 log)))))"
    using analyze_website_accounted [OF st] by (simp add: explained_score_def)
  have fetch: "fetch_url ev' log' (ensure_protocol u1) = Inl (''HTTP '' @ str_nat code)"
    using assms(3) by (simp add: fetch_url_def)
  have simple: "if startswith ''https://'' (ensure_protocol u1)
          then take (length log' + 2) (snd (simple_analyze_website ev' u1 log')) =
                 log' @ [UrlOpen (ensure_protocol u1),
                         UrlOpen (replace ''https://'' ''http://'' (ensure_protocol u1))]
          else status (fst (simple_analyze_website ev' u1 log')) = Error \<and>
               issues (fst (simple_analyze_website ev' u1 log')) = [''Site not accessible''] \<and>
               quality_score (fst (simple_analyze_website ev' u1 log')) = 0"
    using fetch
    by (cases rule: simple_analyze_website_cases [of ev' log' u1]) (simp_all add: fail_with_def)
  have worth: "deduction (''HTTP '' @ str_nat sc) = 30"
    by (rule deduction_http)
  from st http score fetch simple worth show ?thesis by blast
qed

theorem http_response_is_scored_witness:
  "status (fst (analyze_website not_found_world ''http://example.com'' [])) = Analyzed \<and>
   ''HTTP 404'' \<in> set (issues (fst (analyze_website not_found_world ''http://example.com'' []))) \<and>
   deduction ''HTTP 404'' = 30 \<and>
   quality_score (fst (analyze_website not_found_world ''http://example.com'' [])) =
     max 0 (100 - sum_list (map deduction
       (issues (fst (analyze_website not_found_world ''http://example.com'' []))))) \<and>
   fetch_url not_found_world [] ''http://example.com'' = Inl ''HTTP 404'' \<and>
   status (fst (simple_analyze_website not_found_world ''http://example.com'' [])) = Error \<and>
   issues (fst (simple_analyze_website not_found_world ''http://example.com'' [])) =
     [''Site not accessible'']"
proof -
  have a: "session_get not_found_world [] (ensure_protocol ''http://example.com'') False =
             Response 404 [] \<or>
           (session_get not_found_world [] (ensure_protocol ''http://example.com'') False =
              SSLError [] \<and>
            session_get not_found_world
              ([] @ [SessionGet (ensure_protocol ''http://example.com'') False])
              (replace ''https://'' ''http://'' (ensure_protocol ''http://example.com'')) True =
              Response 404 [])"
    by (simp add: not_found_world_sel)
  have b: "make_soup not_found_world [] = Inr home_soup"
    by (simp add: not_found_world_sel)
  have c: "urlopen not_found_world [] (ensure_protocol ''http://example.com'') = HTTPError 404"
    by (simp add: not_found_world_sel)
  have u: "ensure_protocol ''http://example.com'' = ''http://example.com''"
    and n: "\<not> startswith ''https://'' ''http://example.com''"
    by (simp_all add: ensure_protocol_def startswith_def)
  show ?thesis
    using http_response_is_scored [OF a b c]
    by (simp add: u n str_nat_404)
qed

text \<open>
  In the simple analyzer a 404 on an \<open>http://\<close> URL ends in an error result, not in an
  analyzed one.
\<close>

theorem simple_analyzer_fails_on_http_404:
  "urlopen not_found_world [] ''http://example.com'' = HTTPError 404 \<and>
   status (fst (simple_analyze_website not_found_world ''http://example.com'' [])) = Error \<and>
   issues (fst (simple_analyze_website not_found_world ''http://example.com'' [])) =
     [''Site not accessible''] \<and>
   quality_score (fst (simple_analyze_website not_found_world ''http://example.com'' [])) = 0"
  by (simp add: not_found_simple_run not_found_world_sel)

text \<open>
  C5. In the simple analyzer, when the first fetch of a URL that starts with \<open>https://\<close>
  fails, for whatever reason, there is exactly one more fetch, of the URL with \<open>https://\<close>
  replaced by \<open>http://\<close>, and a URL that starts with \<open>http://\<close> is fetched once only. In the
  full analyzer the second request is made exactly when the first raises an SSL error,
  whatever the scheme of the URL, and any other failure ends the analysis after the one
  request. No analysis asks for the page more than twice.
\<close>

theorem page_fetch_attempts:
  "filter is_page_fetch (snd (simple_analyze_website ev u0 log)) =
     filter is_page_fetch log @
       (case fetch_url ev log (ensure_protocol u0) of
          Inr response \<Rightarrow> [UrlOpen (ensure_protocol u0)]
        | Inl e \<Rightarrow>
            if startswith ''https://'' (ensure_protocol u0)
            then [UrlOpen (ensure_protocol u0),
                  UrlOpen (replace ''https://'' ''http://'' (ensure_protocol u0))]
            else [UrlOpen (ensure_protocol u0)]) \<and>
   filter is_page_fetch (snd (analyze_website ev u0 log)) =
     filter is_page_fetch log @
       (case session_get ev log (ensure_protocol u0) False of
          Response status_code content \<Rightarrow> [SessionGet (ensure_protocol u0) False]
        | SSLError e \<Rightarrow>
            [SessionGet (ensure_protocol u0) False,
             SessionGet (replace ''https://'' ''http://'' (ensure_protocol u0)) True]
        | RequestError e \<Rightarrow> [SessionGet (ensure_protocol u0) False])"
proof
  show "filter is_page_fetch (snd (simple_analyze_website ev u0 log)) =
     filter is_page_fetch log @
       (case fetch_url ev log (ensure_protocol u0) of
          Inr response \<Rightarrow> [UrlOpen (ensure_protocol u0)]
        | Inl e \<Rightarrow>
            if startswith ''https://'' (ensure_protocol u0)
            then [UrlOpen (ensure_protocol u0),
                  UrlOpen (replace ''https://'' ''http://'' (ensure_protocol u0))]
            else [UrlOpen (ensure_protocol u0)])"
    by (cases rule: simple_analyze_website_cases [of ev log u0]) simp_all
  show "filter is_page_fetch (snd (analyze_website ev u0 log)) =
     filter is_page_fetch log @
       (case session_get ev log (ensure_protocol u0) False of
          Response status_code content \<Rightarrow> [SessionGet (ensure_protocol u0) False]
        | SSLError e \<Rightarrow>
            [SessionGet (ensure_protocol u0) False,
             SessionGet (replace ''https://'' ''http://'' (ensure_protocol u0)) True]
        | RequestError e \<Rightarrow> [SessionGet (ensure_protocol u0) False])"
    by (cases rule: analyze_website_cases [of ev log u0]) (simp_all add: evaluate_fetches)
qed

theorem page_fetch_attempts_witness:
  "filter is_page_fetch (snd (simple_analyze_website offline_world ''example.com'' [])) =
     [UrlOpen ''https://example.com'', UrlOpen ''http://example.com''] \<and>
   filter is_page_fetch (snd (analyze_website tls_failing_world ''http://example.com'' [])) =
     [SessionGet ''http://example.com'' False, SessionGet ''http://example.com'' True]"
proof -
  note simple = conjunct1 [OF page_fetch_attempts [of offline_world "''example.com''" "[]"]]
  note full = conjunct2 [OF page_fetch_attempts [of tls_failing_world "''http://example.com''" "[]"]]
  show ?thesis
    by (simp add: simple full fetch_url_def offline_world_sel tls_failing_world_sel
          ensure_protocol_def startswith_def replace_def)
qed

text \<open>
  In the full analyzer a connection error on an \<open>https://\<close> URL is followed by no second
  request.
\<close>

theorem connection_error_is_not_retried:
  "startswith ''https://'' (ensure_protocol ''example.com'') \<and>
   session_get offline_world [] (ensure_protocol ''example.com'') False =
     RequestError ''unreachable'' \<and>
   snd (analyze_website offline_world ''example.com'' []) =
     [SessionGet ''https://example.com'' False] \<and>
   issues (fst (analyze_website offline_world ''example.com'' [])) =
     [''Connection error: unreachable'']"
  by (simp add: offline_full_run offline_world_sel ensure_protocol_def startswith_def)

text \<open>
  C6. Every result with status \<open>error\<close> has score 0 and an issue list of exactly one
  diagnostic string, and carries neither \<open>needs_redesign\<close> nor \<open>is_hot_lead\<close>. The error
  result of the full analyzer has only the keys \<open>url\<close>, \<open>quality_score\<close>, \<open>issues\<close> and
  \<open>status\<close>; the error result of the simple analyzer also has \<open>business_name\<close>,
  \<open>phone\<close>, \<open>email\<close> and \<open>analysis_date\<close>.
\<close>

theorem error_results_shape:
  assumes "rf = fst (analyze_website ev u0 log)"
      and "rs = fst (simple_analyze_website ev' u0' log')"
  shows "(status rf = Error \<longrightarrow>
            quality_score rf = 0 \<and> length (issues rf) = 1 \<and>
            needs_redesign rf = None \<and> is_hot_lead rf = None \<and>
            business_name rf = None \<and> phone rf = None \<and> email rf = None \<and>
            analysis_date rf = None) \<and>
         (status rs = Error \<longrightarrow>
            quality_score rs = 0 \<and> length (issues rs) = 1 \<and>
            needs_redesign rs = None \<and> is_hot_lead rs = None \<and>
            business_name rs \<noteq> None \<and> phone rs \<noteq> None \<and> email rs \<noteq> None \<and>
            analysis_date rs \<noteq> None)"
  using analyze_website_shape [OF assms(1)] simple_analyze_website_shape [OF assms(2)]
  by auto

theorem error_results_shape_witness:
  "status (fst (analyze_website offline_world ''example.com'' [])) = Error \<and>
   quality_score (fst (analyze_website offline_world ''example.com'' [])) = 0 \<and>
   length (issues (fst (analyze_website offline_world ''example.com'' []))) = 1 \<and>
   business_name (fst (analyze_website offline_world ''example.com'' [])) = None \<and>
   status (fst (simple_analyze_website offline_world ''example.com'' [])) = Error \<and>
   quality_score (fst (simple_analyze_website offline_world ''example.com'' [])) = 0 \<and>
   length (issues (fst (simple_analyze_website offline_world ''example.com'' []))) = 1 \<and>
   needs_redesign (fst (simple_analyze_website offline_world ''example.com'' [])) = None \<and>
   business_name (fst (simple_analyze_website offline_world ''example.com'' [])) \<noteq> None"
proof -
  have f: "status (fst (analyze_website offline_world ''example.com'' [])) = Error"
    by (simp add: offline_full_run)
  have s: "status (fst (simple_analyze_website offline_world ''example.com'' [])) = Error"
    by (simp add: offline_simple_run)
  show ?thesis
    using error_results_shape [OF refl refl, of offline_world "''example.com''" "[]"
            offline_world "''example.com''" "[]"] f s
    by blast
qed

text \<open>
  The error result of the full analyzer lacks keys that its analyzed result has.
\<close>

theorem error_result_lacks_keys:
  "status (fst (analyze_website offline_world ''example.com'' [])) = Error \<and>
   needs_redesign (fst (analyze_website offline_world ''example.com'' [])) = None \<and>
   business_name (fst (analyze_website offline_world ''example.com'' [])) = None \<and>
   analysis_date (fst (analyze_website offline_world ''example.com'' [])) = None \<and>
   status (fst (analyze_website http_only_world ''http://example.com'' [])) = Analyzed \<and>
   needs_redesign (fst (analyze_website http_only_world ''http://example.com'' [])) = Some False \<and>
   business_name (fst (analyze_website http_only_world ''http://example.com'' [])) = Some ''Home'' \<and>
   analysis_date (fst (analyze_website http_only_world ''http://example.com'' [])) =
     Some ''2026-11-04 12:00:00''"
  by (simp add: offline_full_run http_only_direct_run)

text \<open>
  C7. In every analyzed result, of either analyzer, the issue \<open>No contact info found\<close>
  (with its deduction of 20) is present if and only if both the extracted phone and the
  extracted email are empty; and on every text the presence check and the extractor, which
  run the same two patterns, agree.
\<close>

theorem contact_issue_iff_nothing_extracted:
  assumes "r = fst (analyze_website ev u0 log) \<or> r = fst (simple_analyze_website ev u0 log)"
      and "status r = Analyzed"
  shows "(''No contact info found'' \<in> set (issues r) \<longleftrightarrow> phone r = Some [] \<and> email r = Some []) \<and>
         deduction ''No contact info found'' = 20 \<and>
         ((findall phone_pattern txt = [] \<and> findall email_pattern txt = []) \<longleftrightarrow>
          (get_or_empty (search phone_pattern txt) = [] \<and>
           get_or_empty (search email_pattern txt) = []))"
proof -
  have "''No contact info found'' \<in> set (issues r) \<longleftrightarrow> phone r = Some [] \<and> email r = Some []"
    using assms(1)
  proof
    assume r: "r = fst (analyze_website ev u0 log)"
    show ?thesis
    proof (cases rule: analyze_website_cases [of ev log u0])
      case (direct sc content)
      with assms(2) r show ?thesis by (simp add: evaluate_contact)
    next
      case (fallback e sc content)
      with assms(2) r show ?thesis by (simp add: evaluate_contact deduct_def)
    next
      case (no_fallback e)
      with assms(2) r show ?thesis by (simp add: error_result_def)
    next
      case (failed e)
      with assms(2) r show ?thesis by (simp add: error_result_def)
    qed
  next
    assume r: "r = fst (simple_analyze_website ev u0 log)"
    show ?thesis
    proof (cases rule: simple_analyze_website_cases [of ev log u0])
      case (direct response)
      with assms(2) r show ?thesis by (simp add: simple_evaluate_contact initial_result_def)
    next
      case (fallback e response)
      with assms(2) r show ?thesis
        by (simp add: simple_evaluate_contact initial_result_def deduct_def tally_of_def)
    next
      case (no_fallback e e')
      with assms(2) r show ?thesis by (simp add: fail_with_def)
    next
      case (failed e)
      with assms(2) r show ?thesis by (simp add: fail_with_def)
    qed
  qed
  then show ?thesis
    by (simp add: deduction_fixed contact_presence)
qed

theorem contact_issue_iff_nothing_extracted_witness:
  "status (fst (simple_analyze_website copyright_world ''https://example.com'' [])) = Analyzed \<and>
   ''No contact info found'' \<in>
     set (issues (fst (simple_analyze_website copyright_world ''https://example.com'' []))) \<and>
   phone (fst (simple_analyze_website copyright_world ''https://example.com'' [])) = Some [] \<and>
   email (fst (simple_analyze_website copyright_world ''https://example.com'' [])) = Some [] \<and>
   status (fst (analyze_website http_only_world ''http://example.com'' [])) = Analyzed \<and>
   ''No contact info found'' \<notin>
     set (issues (fst (analyze_website http_only_world ''http://example.com'' []))) \<and>
   phone (fst (analyze_website http_only_world ''http://example.com'' [])) \<noteq> Some []"
proof -
  have a: "status (fst (simple_analyze_website copyright_world ''https://example.com'' [])) = Analyzed"
    and b: "''No contact info found'' \<in>
              set (issues (fst (simple_analyze_website copyright_world ''https://example.com'' [])))"
    by (simp_all add: copyright_simple_run)
  have c: "status (fst (analyze_website http_only_world ''http://example.com'' [])) = Analyzed"
    and d: "phone (fst (analyze_website http_only_world ''http://example.com'' [])) \<noteq> Some []"
    by (simp_all add: http_only_direct_run)
  show ?thesis
    using contact_issue_iff_nothing_extracted [OF disjI2 [OF refl] a]
          contact_issue_iff_nothing_extracted [OF disjI1 [OF refl] c]
          a b c d
    by blast
qed

text \<open>
  C8. On the page whose text is the copyright sign followed by \<open>2016 Acme\<close>, analysed in
  2026, the lower-cased text contains the sign followed by \<open>2016\<close> and 2016 lies in the range
  of years; the full analyzer reports \<open>Outdated copyright: 2016\<close>, the simple analyzer
  reports no outdated copyright at all.
\<close>

theorem simple_analyzer_misses_copyright_sign:
  "contains (CHR 0xA9 # '' 2016'') (text_content (feed new_parser copyright_events)) \<and>
   2016 \<in> set [2015..<now_year copyright_world [UrlOpen ''https://example.com''] - 1] \<and>
   issues (fst (simple_analyze_website copyright_world ''https://example.com'' [])) =
     [''No mobile viewport'', ''No contact info found''] \<and>
   quality_score (fst (simple_analyze_website copyright_world ''https://example.com'' [])) = 65 \<and>
   ''Outdated copyright: 2016'' \<in>
     set (issues (fst (analyze_website copyright_world ''https://example.com'' [])))"
  by (simp add: copyright_simple_run copyright_full_run copyright_parser copyright_world_sel
        startswith_def)

text \<open>
  C9. For every list of URLs, the empty list too, \<open>batch_analyze\<close> of either analyzer
  returns as many results as there are URLs, and the result at index \<open>k\<close> is the analysis
  of the URL at index \<open>k\<close>, run after the URLs before it; the analysis always returns a
  result, so no URL aborts the batch; the empty list gives the empty batch.
\<close>

theorem batch_results_aligned:
  "length (fst (batch_analyze ev urls delay log)) = length urls \<and>
   (\<forall>k<length urls.
      fst (batch_analyze ev urls delay log) ! k =
        fst (analyze_website ev (urls ! k)
          (snd (batch_loop (analyze_website ev) delay (length urls) 1 (take k urls) ([], log))))) \<and>
   batch_analyze ev [] delay log = ([], log) \<and>
   length (fst (simple_batch_analyze ev urls delay log)) = length urls \<and>
   (\<forall>k<length urls.
      fst (simple_batch_analyze ev urls delay log) ! k =
        fst (simple_analyze_website ev (urls ! k)
          (snd (batch_loop (simple_analyze_website ev) delay (length urls) 1 (take k urls)
             ([], log))))) \<and>
   simple_batch_analyze ev [] delay log = ([], log)"
  using batch_loop_nth [of _ urls "analyze_website ev" delay "length urls" 1 "[]" log]
        batch_loop_nth [of _ urls "simple_analyze_website ev" delay "length urls" 1 "[]" log]
  by (simp add: batch_analyze_def simple_batch_analyze_def batch_loop_length)

theorem batch_results_aligned_witness:
  "length (fst (batch_analyze offline_world [''example.com'', ''example.com''] 2 [])) = 2 \<and>
   fst (batch_analyze offline_world [''example.com'', ''example.com''] 2 []) ! 1 =
     fst (analyze_website offline_world ''example.com''
            [SessionGet ''https://example.com'' False, Sleep 2]) \<and>
   status (fst (batch_analyze offline_world [''example.com'', ''example.com''] 2 []) ! 0) = Error \<and>
   status (fst (batch_analyze offline_world [''example.com'', ''example.com''] 2 []) ! 1) = Error"
proof -
  have one: "(1::nat) < length [''example.com'', ''example.com'']"
    and zero: "(0::nat) < length [''example.com'', ''example.com'']" by simp_all
  have "fst (batch_analyze offline_world [''example.com'', ''example.com''] 2 []) ! 1 =
        fst (analyze_website offline_world ([''example.com'', ''example.com''] ! 1)
          (snd (batch_loop (analyze_website offline_world) 2
             (length [''example.com'', ''example.com'']) 1
             (take 1 [''example.com'', ''example.com'']) ([], []))))"
    and "fst (batch_analyze offline_world [''example.com'', ''example.com''] 2 []) ! 0 =
        fst (analyze_website offline_world ([''example.com'', ''example.com''] ! 0)
          (snd (batch_loop (analyze_website offline_world) 2
             (length [''example.com'', ''example.com'']) 1
             (take 0 [''example.com'', ''example.com'']) ([], []))))"
    and "length (fst (batch_analyze offline_world [''example.com'', ''example.com''] 2 [])) =
         length [''example.com'', ''example.com'']"
    using batch_results_aligned [of offline_world "[''example.com'', ''example.com'']" 2 "[]"]
          one zero by blast+
  then show ?thesis
    by (simp add: offline_full_run_any)
qed

text \<open>
  C10. Whenever the fallback request succeeds and the analysis then completes with status
  \<open>analyzed\<close>, the URL the checks look at starts with \<open>http://\<close> and not with
  \<open>https://\<close>, so the result contains both \<open>HTTPS not available\<close> and \<open>No HTTPS\<close>, worth
  20 points each and 40 together; the full analyzer records that URL as the result's
  \<open>url\<close>.
\<close>

theorem fallback_costs_forty:
  assumes "u = ensure_protocol u0" and "u' = replace ''https://'' ''http://'' u"
      and "(r = fst (analyze_website ev u0 log) \<and>
            session_get ev log u False = SSLError e \<and>
            session_get ev (log @ [SessionGet u False]) u' True = Response sc content) \<or>
           (r = fst (simple_analyze_website ev u0 log) \<and> startswith ''https://'' u \<and>
            fetch_url ev log u = Inl e \<and>
            fetch_url ev (log @ [UrlOpen u]) u' = Inr content)"
      and "status r = Analyzed"
  shows "startswith ''http://'' u' \<and> \<not> startswith ''https://'' u' \<and>
         ''HTTPS not available'' \<in> set (issues r) \<and> ''No HTTPS'' \<in> set (issues r) \<and>
         deduction ''HTTPS not available'' + deduction ''No HTTPS'' = 40 \<and>
         (r = fst (simple_analyze_website ev u0 log) \<or> url r = u')"
proof -
  have http: "startswith ''http://'' u'" and nohttps: "\<not> startswith ''https://'' u'"
    using replace_prefix [of u0] http_not_https by (simp_all add: assms(1,2))
  have both: "x \<in> set (snd (check_https u' (check_status sc (deduct 20 ''HTTPS not available'' (100, [])))))"
             "x \<in> set (snd (check_https u' (deduct 20 ''HTTPS not available'' (100, []))))"
    if "x = ''HTTPS not available'' \<or> x = ''No HTTPS''" for x
    using that nohttps by (auto simp add: check_https_def check_status_def deduct_def)
  have "(''HTTPS not available'' \<in> set (issues r) \<and> ''No HTTPS'' \<in> set (issues r)) \<and>
        (r = fst (simple_analyze_website ev u0 log) \<or> url r = u')"
    using assms(3)
  proof
    assume a: "r = fst (analyze_website ev u0 log) \<and>
            session_get ev log u False = SSLError e \<and>
            session_get ev (log @ [SessionGet u False]) u' True = Response sc content"
    then have run: "analyze_website ev u0 log =
        evaluate ev u' sc content (deduct 20 ''HTTPS not available'' (100, []))
          (log @ [SessionGet u False, SessionGet u' True])"
      by (simp add: analyze_website_def Let_def assms(1,2) [symmetric])
    with a assms(4) have st: "status (fst (evaluate ev u' sc content
        (deduct 20 ''HTTPS not available'' (100, []))
        (log @ [SessionGet u False, SessionGet u' True]))) = Analyzed"
      by simp
    from evaluate_keeps_issues [OF st both(1)] a run
    show ?thesis by (simp add: evaluate_url_status)
  next
    assume a: "r = fst (simple_analyze_website ev u0 log) \<and> startswith ''https://'' u \<and>
            fetch_url ev log u = Inl e \<and>
            fetch_url ev (log @ [UrlOpen u]) u' = Inr content"
    then have run: "simple_analyze_website ev u0 log =
        (simple_evaluate ev u' content
           (with_tally (deduct 20 ''HTTPS not available'') (initial_result u0 (now_stamp ev log)))
           (log @ [UrlOpen u, UrlOpen u']),
         log @ [UrlOpen u, UrlOpen u'])"
      by (simp add: simple_analyze_website_def Let_def assms(1,2) [symmetric])
    with a assms(4) have st: "status (simple_evaluate ev u' content
           (with_tally (deduct 20 ''HTTPS not available'') (initial_result u0 (now_stamp ev log)))
           (log @ [UrlOpen u, UrlOpen u'])) = Analyzed"
      by simp
    have "x \<in> set (issues (simple_evaluate ev u' content
           (with_tally (deduct 20 ''HTTPS not available'') (initial_result u0 (now_stamp ev log)))
           (log @ [UrlOpen u, UrlOpen u'])))"
      if "x = ''HTTPS not available'' \<or> x = ''No HTTPS''" for x
      by (rule simple_evaluate_keeps_issues [OF st]) (simp add: both(2) [OF that])
    with a run show ?thesis by simp
  qed
  with http nohttps show ?thesis by (simp add: deduction_fixed)
qed

theorem fallback_costs_forty_witness:
  "status (fst (analyze_website http_only_world ''example.com'' [])) = Analyzed \<and>
   startswith ''http://'' (url (fst (analyze_website http_only_world ''example.com'' []))) \<and>
   ''HTTPS not available'' \<in> set (issues (fst (analyze_website http_only_world ''example.com'' []))) \<and>
   ''No HTTPS'' \<in> set (issues (fst (analyze_website http_only_world ''example.com'' []))) \<and>
   deduction ''HTTPS not available'' + deduction ''No HTTPS'' = 40"
proof -
  have u: "''https://example.com'' = ensure_protocol ''example.com''"
    and u': "''http://example.com'' = replace ''https://'' ''http://'' ''https://example.com''"
    by (simp_all add: ensure_protocol_def startswith_def replace_def)
  have f: "(fst (analyze_website http_only_world ''example.com'' []) =
              fst (analyze_website http_only_world ''example.com'' []) \<and>
            session_get http_only_world [] ''https://example.com'' False =
              SSLError ''handshake failure'' \<and>
            session_get http_only_world ([] @ [SessionGet ''https://example.com'' False])
              ''http://example.com'' True = Response 200 []) \<or>
           (fst (analyze_website http_only_world ''example.com'' []) =
              fst (simple_analyze_website http_only_world ''example.com'' []) \<and>
            startswith ''https://'' ''https://example.com'' \<and>
            fetch_url http_only_world [] ''https://example.com'' = Inl ''handshake failure'' \<and>
            fetch_url http_only_world ([] @ [UrlOpen ''https://example.com''])
              ''http://example.com'' = Inr [])"
    by (simp add: http_only_world_sel http_only_get_def startswith_def)
  have s: "status (fst (analyze_website http_only_world ''example.com'' [])) = Analyzed"
    and w: "url (fst (analyze_website http_only_world ''example.com'' [])) = ''http://example.com''"
    by (simp_all add: http_only_fallback_run)
  from fallback_costs_forty [OF u u' f s] s w show ?thesis by simp
qed

text \<open>
  After a fallback that succeeded, an exception in the rest of the analysis (the parser
  rejecting the markup in the full analyzer, \<open>.lower()\<close> on the valueless \<open>name\<close> in the
  simple one) leaves an error result with neither of the two issues; and the \<open>url\<close> the
  simple analyzer records is the string it was called with.
\<close>

theorem fallback_then_error_has_neither_issue:
  "session_get rejected_markup_world [] ''https://example.com'' False =
     SSLError ''handshake failure'' \<and>
   session_get rejected_markup_world [SessionGet ''https://example.com'' False]
     ''http://example.com'' True = Response 200 [] \<and>
   snd (analyze_website rejected_markup_world ''example.com'' []) =
     [SessionGet ''https://example.com'' False, SessionGet ''http://example.com'' True] \<and>
   status (fst (analyze_website rejected_markup_world ''example.com'' [])) = Error \<and>
   issues (fst (analyze_website rejected_markup_world ''example.com'' [])) =
     [''Analysis error: markup rejected''] \<and>
   startswith ''https://'' (ensure_protocol ''example.com'') \<and>
   fetch_url valueless_name_world [] ''https://example.com'' = Inl ''URL Error: handshake failure'' \<and>
   fetch_url valueless_name_world [UrlOpen ''https://example.com''] ''http://example.com'' = Inr [] \<and>
   snd (simple_analyze_website valueless_name_world ''example.com'' []) =
     [UrlOpen ''https://example.com'', UrlOpen ''http://example.com''] \<and>
   status (fst (simple_analyze_website valueless_name_world ''example.com'' [])) = Error \<and>
   ''HTTPS not available'' \<notin>
     set (issues (fst (simple_analyze_website valueless_name_world ''example.com'' []))) \<and>
   ''No HTTPS'' \<notin>
     set (issues (fst (simple_analyze_website valueless_name_world ''example.com'' []))) \<and>
   \<not> startswith ''http://''
       (url (fst (simple_analyze_website valueless_name_world ''example.com'' [])))"
  by (simp add: rejected_markup_full_run rejected_markup_world_sel http_only_get_def
        valueless_name_simple_run valueless_name_world_sel fetch_url_def
        http_only_open_def ensure_protocol_def startswith_def)

end
